theory Spec2Isabelle
  imports Main "HOL-Library.Word"
begin

unbundle bit_operations_syntax

section \<open>Data model\<close>

text \<open>
  Both scripts work on numpy arrays of dtype uint8. A single-channel image (Mask,
  StylizedAlpha) is a two-dimensional array, kept here as the list of its rows; a
  written output frame is a height x width x 4 array, kept as rows of 4-tuples in
  the channel order of the array. What \<open>np.array(result)\<close> yields for the Mask
  Source's answer is either two-dimensional (PIL mode L) or three-dimensional with
  a channel count (3 for RGB, 4 for RGBA).
\<close>

type_synonym uint8 = "8 word"
type_synonym image = "uint8 list list"
type_synonym kernel = "bool list list"
type_synonym pixel4 = "uint8 \<times> uint8 \<times> uint8 \<times> uint8"
type_synonym rgba = "pixel4 list list"

datatype ndarray = Array2 image | Array3 nat "uint8 list list list"

datatype error = ZeroDivisionError | ValueError | IndexError | CvError | CalledProcessError

definition height :: "'a list list \<Rightarrow> nat" where
  "height a = length a"

definition width :: "'a list list \<Rightarrow> nat" where
  "width a = (case a of [] \<Rightarrow> 0 | r # _ \<Rightarrow> length r)"

definition has_shape :: "nat \<Rightarrow> nat \<Rightarrow> 'a list list \<Rightarrow> bool" where
  "has_shape h w a \<longleftrightarrow> length a = h \<and> list_all (\<lambda>r. length r = w) a"

definition full :: "nat \<Rightarrow> nat \<Rightarrow> 'a \<Rightarrow> 'a list list" where
  "full h w v = replicate h (replicate w v)"

definition px :: "'a list list \<Rightarrow> nat \<Rightarrow> nat \<Rightarrow> 'a" where
  "px a y x = a ! y ! x"

section \<open>The image primitives the scripts call\<close>

text \<open>
  \<open>cv2.threshold(src, thresh, maxval, cv2.THRESH_BINARY)[1]\<close>: a pixel above the
  threshold becomes \<open>maxval\<close>, every other pixel 0.
\<close>

definition threshold_px :: "uint8 \<Rightarrow> uint8 \<Rightarrow> uint8 \<Rightarrow> uint8" where
  "threshold_px thresh maxval v = (if thresh < v then maxval else 0)"

definition threshold :: "image \<Rightarrow> uint8 \<Rightarrow> uint8 \<Rightarrow> image" where
  "threshold src thresh maxval = map (map (threshold_px thresh maxval)) src"

text \<open>
  \<open>cv2.getStructuringElement(cv2.MORPH_ELLIPSE, (k, k))\<close>. Row \<open>i\<close> of the element
  is set from column \<open>c - dx\<close> to column \<open>c + dx\<close>, with \<open>r = c = k div 2\<close>,
  \<open>dy = i - r\<close> and \<open>dx\<close> the integer nearest to \<open>c * sqrt ((r*r - dy*dy) / (r*r))\<close>,
  which for the square sizes used here is the integer nearest to
  \<open>sqrt (r*r - dy*dy)\<close>; a 1 x 1 element is the single set cell. A size that is
  not positive is rejected by the library.
\<close>

definition round_sqrt :: "nat \<Rightarrow> nat" where
  "round_sqrt m = length (filter (\<lambda>k. k * k + k < m) [0..<m])"

definition ellipse_row :: "nat \<Rightarrow> nat \<Rightarrow> bool list" where
  "ellipse_row k i =
     (let r = k div 2; c = k div 2; dy = (if i < r then r - i else i - r)
      in if dy \<le> r
         then (let dx = round_sqrt (r * r - dy * dy);
                   j1 = c - dx;
                   j2 = min (c + dx + 1) k
               in map (\<lambda>j. j1 \<le> j \<and> j < j2) [0..<k])
         else replicate k False)"

definition ellipse :: "nat \<Rightarrow> kernel" where
  "ellipse k = (if k = 1 then [[True]] else map (ellipse_row k) [0..<k])"

definition getStructuringElement :: "int \<Rightarrow> error + kernel" where
  "getStructuringElement ksize =
     (if ksize \<le> 0 then Inl CvError else Inr (ellipse (nat ksize)))"

text \<open>
  \<open>cv2.dilate(src, kernel, iterations=1)\<close> and the erosion inside
  \<open>cv2.morphologyEx(src, cv2.MORPH_CLOSE, kernel)\<close>. The anchor is the centre cell
  \<open>(k div 2, k div 2)\<close>; the destination pixel is the maximum (for erosion the
  minimum) of the source pixels under the set cells of the element. Pixels outside
  the image never win: the border counts as 0 for dilation and as 255 for erosion.
\<close>

definition kernel_offsets :: "kernel \<Rightarrow> (int \<times> int) list" where
  "kernel_offsets K =
     concat (map (\<lambda>ky. concat (map (\<lambda>kx.
        if K ! ky ! kx then [(int ky - int (height K div 2), int kx - int (width K div 2))]
        else []) [0..<width K])) [0..<height K])"

definition pixel_at :: "uint8 \<Rightarrow> image \<Rightarrow> int \<Rightarrow> int \<Rightarrow> uint8" where
  "pixel_at border src y x =
     (if 0 \<le> y \<and> y < int (height src) \<and> 0 \<le> x \<and> x < int (width src)
      then src ! nat y ! nat x else border)"

definition dilate :: "image \<Rightarrow> kernel \<Rightarrow> image" where
  "dilate src K =
     map (\<lambda>y. map (\<lambda>x.
        fold max (map (\<lambda>(dy, dx). pixel_at 0 src (int y + dy) (int x + dx)) (kernel_offsets K)) 0)
        [0..<width src]) [0..<height src]"

definition erode :: "image \<Rightarrow> kernel \<Rightarrow> image" where
  "erode src K =
     map (\<lambda>y. map (\<lambda>x.
        fold min (map (\<lambda>(dy, dx). pixel_at 255 src (int y + dy) (int x + dx)) (kernel_offsets K)) 255)
        [0..<width src]) [0..<height src]"

definition morph_close :: "image \<Rightarrow> kernel \<Rightarrow> image" where
  "morph_close src K = erode (dilate src K) K"

text \<open>
  \<open>cv2.subtract\<close> and \<open>cv2.add\<close> saturate at 0 and at 255. Their operands in both
  scripts are derived from one image and so have one shape.
\<close>

definition subtract_px :: "uint8 \<Rightarrow> uint8 \<Rightarrow> uint8" where
  "subtract_px a b = (if a \<le> b then 0 else a - b)"

definition add_px :: "uint8 \<Rightarrow> uint8 \<Rightarrow> uint8" where
  "add_px a b = (if 255 < unat a + unat b then 255 else a + b)"

definition subtract :: "image \<Rightarrow> image \<Rightarrow> image" where
  "subtract a b = map2 (map2 subtract_px) a b"

definition add :: "image \<Rightarrow> image \<Rightarrow> image" where
  "add a b = map2 (map2 add_px) a b"

definition clip :: "image \<Rightarrow> uint8 \<Rightarrow> uint8 \<Rightarrow> image" where
  "clip a lo hi = map (map (\<lambda>v. min hi (max lo v))) a"

text \<open>
  \<open>(a * 0.6).astype(np.uint8)\<close> and \<open>(a * 0.5).astype(np.uint8)\<close>: the product is a
  float64 that the cast truncates. For each of the 256 pixel values the float64
  product of the value and the constant is within half a unit in the last place of
  the exact product \<open>num * v / den\<close> and equals it where that is an integer, so the
  truncation is \<open>num * v div den\<close> (3/5 for 0.6, 1/2 for 0.5).
\<close>

definition scale_px :: "nat \<Rightarrow> nat \<Rightarrow> uint8 \<Rightarrow> uint8" where
  "scale_px num den v = of_nat (num * unat v div den)"

definition scale :: "nat \<Rightarrow> nat \<Rightarrow> image \<Rightarrow> image" where
  "scale num den a = map (map (scale_px num den)) a"

text \<open>
  \<open>cv2.GaussianBlur(src, (k, k), 0)\<close>. The library rejects a size that is not
  positive and odd, copies the source for the 1 x 1 size, and otherwise returns an
  image of the source's shape whose pixel values come from its fixed-point
  convolution. That convolution is not part of the scripts: it is the parameter
  \<open>bp\<close>, giving the value at row \<open>y\<close> and column \<open>x\<close> for a size and a source.
\<close>

type_synonym blur_px = "nat \<Rightarrow> image \<Rightarrow> nat \<Rightarrow> nat \<Rightarrow> uint8"

definition GaussianBlur :: "blur_px \<Rightarrow> image \<Rightarrow> int \<Rightarrow> error + image" where
  "GaussianBlur bp src ksize =
     (if ksize \<le> 0 \<or> even ksize then Inl CvError
      else if ksize = 1 then Inr src
      else Inr (map (\<lambda>y. map (\<lambda>x. bp (nat ksize) src y x) [0..<width src]) [0..<height src]))"

section \<open>Stylizer: create-human-outline.py\<close>

text \<open>Lines 28 to 34: the binary mask and the inner stroke.\<close>

definition inner_outline_from_mask :: "image \<Rightarrow> int \<Rightarrow> error + image" where
  "inner_outline_from_mask msk stroke_size =
     (let binary_mask = threshold msk 127 255
      in case getStructuringElement (stroke_size + 1) of
           Inl e \<Rightarrow> Inl e
         | Inr kernel_inner \<Rightarrow>
             Inr (subtract (dilate binary_mask kernel_inner) binary_mask))"

text \<open>Lines 37 to 39: the image that is handed to the blur.\<close>

definition outer_glow_from_mask :: "image \<Rightarrow> int \<Rightarrow> error + image" where
  "outer_glow_from_mask msk stroke_size =
     (let binary_mask = threshold msk 127 255
      in case getStructuringElement (stroke_size * 3 + 1) of
           Inl e \<Rightarrow> Inl e
         | Inr kernel_outer \<Rightarrow>
             Inr (subtract (dilate binary_mask kernel_outer) binary_mask))"

text \<open>Lines 28 to 49, \<open>create_outline_from_mask(mask, stroke_size)\<close>.\<close>

definition create_outline_from_mask :: "blur_px \<Rightarrow> image \<Rightarrow> int \<Rightarrow> error + image" where
  "create_outline_from_mask bp msk stroke_size =
     (case inner_outline_from_mask msk stroke_size of
        Inl e \<Rightarrow> Inl e
      | Inr inner_outline \<Rightarrow>
         (case outer_glow_from_mask msk stroke_size of
            Inl e \<Rightarrow> Inl e
          | Inr outer_glow \<Rightarrow>
             (case GaussianBlur bp outer_glow (stroke_size * 4 + 1) of
                Inl e \<Rightarrow> Inl e
              | Inr blurred \<Rightarrow>
                  Inr (clip (add (scale 3 5 blurred) inner_outline) 0 255))))"

section \<open>Stylizer: extract-foreground.py\<close>

text \<open>Lines 56 to 60: threshold, then the closing with the 3 x 3 element.\<close>

definition clean_binary :: "image \<Rightarrow> image" where
  "clean_binary alpha = morph_close (threshold alpha 127 255) (ellipse 3)"

text \<open>Lines 63 to 65: the inner stroke.\<close>

definition inner_of_outline :: "image \<Rightarrow> int \<Rightarrow> error + image" where
  "inner_of_outline alpha stroke_size =
     (let binary = clean_binary alpha
      in case getStructuringElement stroke_size of
           Inl e \<Rightarrow> Inl e
         | Inr kernel1 \<Rightarrow> Inr (subtract (dilate binary kernel1) binary))"

text \<open>Lines 68 to 70: the image that is handed to the blur.\<close>

definition outer_of_outline :: "image \<Rightarrow> int \<Rightarrow> error + image" where
  "outer_of_outline alpha stroke_size =
     (let binary = clean_binary alpha
      in case getStructuringElement stroke_size of
           Inl e \<Rightarrow> Inl e
         | Inr kernel1 \<Rightarrow>
            (case getStructuringElement (stroke_size * 2) of
               Inl e \<Rightarrow> Inl e
             | Inr kernel2 \<Rightarrow>
                 Inr (subtract (dilate binary kernel2) (dilate binary kernel1))))"

text \<open>Lines 56 to 74, \<open>create_outline(alpha, stroke_size)\<close>.\<close>

definition create_outline :: "blur_px \<Rightarrow> image \<Rightarrow> int \<Rightarrow> error + image" where
  "create_outline bp alpha stroke_size =
     (case inner_of_outline alpha stroke_size of
        Inl e \<Rightarrow> Inl e
      | Inr inner \<Rightarrow>
         (case outer_of_outline alpha stroke_size of
            Inl e \<Rightarrow> Inl e
          | Inr outer \<Rightarrow>
             (case GaussianBlur bp outer (stroke_size OR 1) of
                Inl e \<Rightarrow> Inl e
              | Inr blurred \<Rightarrow>
                  Inr (clip (add (scale 1 2 blurred) inner) 0 255))))"

text \<open>
  Lines 78 to 91, \<open>create_shadow(alpha, offset_x, offset_y, blur, opacity)\<close>.
  \<open>(shadow * opacity).astype(np.uint8)\<close> is a pixelwise float64 product and
  truncation; it is the parameter \<open>op\<close>.

  The offset is the slice assignment
  \<open>result[offset_y:, offset_x:] = shadow[:h-offset_y, :w-offset_x]\<close>. A slice bound
  is clamped into the axis, a negative one counting from the end (\<open>py_index\<close>), and
  numpy assigns when each axis of the source has the extent of the destination's or
  extent 1, and raises ValueError otherwise.
\<close>

definition py_index :: "nat \<Rightarrow> int \<Rightarrow> nat" where
  "py_index n i = (if i < 0 then nat (max 0 (int n + i)) else min (nat i) n)"

definition offset_shadow :: "image \<Rightarrow> int \<Rightarrow> int \<Rightarrow> error + image" where
  "offset_shadow shadow offset_x offset_y =
     (let h = height shadow; w = width shadow;
          result = full h w (0 :: uint8)
      in if offset_y \<ge> 0 \<and> offset_x \<ge> 0
         then (let y0 = py_index h offset_y;
                   x0 = py_index w offset_x;
                   sh = py_index h (int h - offset_y);
                   sw = py_index w (int w - offset_x)
               in if (sh = h - y0 \<or> sh = 1) \<and> (sw = w - x0 \<or> sw = 1)
                  then Inr (map (\<lambda>y. map (\<lambda>x.
                          if y0 \<le> y \<and> x0 \<le> x
                          then shadow ! (if sh = 1 then 0 else y - y0) ! (if sw = 1 then 0 else x - x0)
                          else result ! y ! x) [0..<w]) [0..<h])
                  else Inl ValueError)
         else Inr result)"

definition create_shadow ::
  "blur_px \<Rightarrow> (uint8 \<Rightarrow> uint8) \<Rightarrow> image \<Rightarrow> int \<Rightarrow> int \<Rightarrow> int \<Rightarrow> error + image" where
  "create_shadow bp op alpha offset_x offset_y blur =
     (let binary = threshold alpha 100 255
      in case getStructuringElement 5 of
           Inl e \<Rightarrow> Inl e
         | Inr kernel5 \<Rightarrow>
            (case GaussianBlur bp (dilate binary kernel5) (blur OR 1) of
               Inl e \<Rightarrow> Inl e
             | Inr blurred \<Rightarrow> offset_shadow (map (map op) blurred) offset_x offset_y))"

section \<open>Frame Compositor\<close>

text \<open>
  \<open>a[:, :, 3] = alpha\<close> on a height x width x 4 array: numpy broadcasts the
  two-dimensional right-hand side to height x width (an axis of extent 1 is
  repeated) and raises ValueError when it cannot.
\<close>

definition broadcast_to :: "nat \<Rightarrow> nat \<Rightarrow> 'a list list \<Rightarrow> error + 'a list list" where
  "broadcast_to h w a =
     (let ah = height a; aw = width a
      in if (ah = h \<or> ah = 1) \<and> (aw = w \<or> aw = 1)
         then Inr (map (\<lambda>y. map (\<lambda>x.
                a ! (if ah = 1 then 0 else y) ! (if aw = 1 then 0 else x)) [0..<w]) [0..<h])
         else Inl ValueError)"

text \<open>A frame of one flat colour with the given alpha channel, of the video's size.\<close>

definition flat_frame :: "uint8 \<Rightarrow> nat \<Rightarrow> nat \<Rightarrow> image \<Rightarrow> error + rgba" where
  "flat_frame colour h w alpha =
     (case broadcast_to h w alpha of
        Inl e \<Rightarrow> Inl e
      | Inr a \<Rightarrow> Inr (map (map (\<lambda>v. (colour, colour, colour, v))) a))"

text \<open>\<open>fg_rgba[:, :, 3] = alpha\<close>: the alpha channel of an existing frame is replaced.\<close>

definition set_alpha :: "rgba \<Rightarrow> image \<Rightarrow> error + rgba" where
  "set_alpha fg alpha =
     (case broadcast_to (height fg) (width fg) alpha of
        Inl e \<Rightarrow> Inl e
      | Inr a \<Rightarrow> Inr (map2 (map2 (\<lambda>(c0, c1, c2, c3) v. (c0, c1, c2, v))) fg a))"

section \<open>Driver: create-human-outline.py\<close>

text \<open>
  The opened video is its decoded frames and the size that its metadata reports.
  The Mask Source (\<open>remove(..., only_mask=True)\<close> after the colour conversion) is
  the parameter \<open>remove\<close>; the encoder is the parameter \<open>ffmpeg\<close>, which gives the
  exit status for a stream name and the still images it is pointed at.
\<close>

record 'f video =
  frames :: "'f list"
  frame_height :: nat
  frame_width :: nat

record 'f outline_state =
  frame_count :: int
  processed_count :: int
  last_outline :: "image option"
  frames_dir :: "(int \<times> rgba) list"
  segmented :: "'f list"

record run_result =
  raised :: "error option"
  temp_files :: "(string \<times> int \<times> rgba) list"
  videos :: "string list"

text \<open>
  Lines 96 to 134, the loop. \<open>segmented\<close> lists the frames that were passed to the
  Mask Source, in order. An exception ends the loop with the files written so far.
\<close>

fun outline_loop ::
  "blur_px \<Rightarrow> ('f \<Rightarrow> image) \<Rightarrow> nat \<Rightarrow> nat \<Rightarrow> int \<Rightarrow> int \<Rightarrow> 'f list \<Rightarrow> 'f outline_state
   \<Rightarrow> error option \<times> 'f outline_state" where
  "outline_loop bp remove h w stroke_size sample_rate [] st = (None, st)"
| "outline_loop bp remove h w stroke_size sample_rate (frame # rest) st =
     (let st1 = st\<lparr>frame_count := frame_count st + 1\<rparr>
      in if sample_rate = 0 then (Some ZeroDivisionError, st1)
         else
           (case (if frame_count st1 mod sample_rate = 0 \<or> last_outline st1 = None
                  then (case create_outline_from_mask bp (remove frame) stroke_size of
                          Inl e \<Rightarrow> Inl e
                        | Inr outline \<Rightarrow>
                            Inr (outline,
                                 st1\<lparr>last_outline := Some outline,
                                     processed_count := processed_count st1 + 1,
                                     segmented := segmented st1 @ [frame]\<rparr>))
                  else (case last_outline st1 of
                          None \<Rightarrow> Inl ValueError
                        | Some outline \<Rightarrow> Inr (outline, st1))) of
              Inl e \<Rightarrow> (Some e, st1)
            | Inr (outline, st2) \<Rightarrow>
               (case flat_frame 255 h w outline of
                  Inl e \<Rightarrow> (Some e, st2)
                | Inr outline_bgra \<Rightarrow>
                    outline_loop bp remove h w stroke_size sample_rate rest
                      (st2\<lparr>frames_dir := frames_dir st2 @ [(frame_count st2, outline_bgra)]\<rparr>))))"

definition outline_init :: "'f outline_state" where
  "outline_init = \<lparr>frame_count = 0, processed_count = 0, last_outline = None,
                   frames_dir = [], segmented = []\<rparr>"

text \<open>
  Lines 92 to 155, \<open>process_video\<close>. \<open>os.system\<close> hands back the exit status, which
  the script drops; the still images are then unlinked.
\<close>

definition process_video ::
  "blur_px \<Rightarrow> ('f \<Rightarrow> image) \<Rightarrow> (string \<Rightarrow> (int \<times> rgba) list \<Rightarrow> int) \<Rightarrow> 'f video \<Rightarrow> int \<Rightarrow> int
   \<Rightarrow> run_result" where
  "process_video bp remove ffmpeg v stroke_size sample_rate =
     (case outline_loop bp remove (frame_height v) (frame_width v) stroke_size sample_rate
             (frames v) outline_init of
        (Some e, st) \<Rightarrow>
          \<lparr>raised = Some e,
           temp_files = map (\<lambda>(i, img). (''outline_frames'', i, img)) (frames_dir st),
           videos = []\<rparr>
      | (None, st) \<Rightarrow>
          (let status = ffmpeg ''outline'' (frames_dir st)
           in \<lparr>raised = None, temp_files = [],
               videos = (if status = 0 then [''outline''] else [])\<rparr>))"

text \<open>Lines 157 to 166, \<open>main\<close>: the parsed options go to \<open>process_video\<close> as they are.\<close>

record cli_args =
  stroke :: int
  sample :: int

definition main_outline ::
  "blur_px \<Rightarrow> ('f \<Rightarrow> image) \<Rightarrow> (string \<Rightarrow> (int \<times> rgba) list \<Rightarrow> int) \<Rightarrow> 'f video \<Rightarrow> cli_args
   \<Rightarrow> run_result" where
  "main_outline bp remove ffmpeg v args = process_video bp remove ffmpeg v (stroke args) (sample args)"

section \<open>Driver: extract-foreground.py\<close>

text \<open>
  Lines 141 to 150: alpha and foreground from what the Mask Source returned.
  \<open>result_np.shape[2]\<close> raises IndexError on a two-dimensional array. With four
  channels the alpha is channel 3 and the colour conversion swaps channels 0 and 2;
  otherwise the alpha is made of 255 in the video's size, and the conversion from
  RGB, which the library runs on three channels only, appends a channel of 255.
\<close>

definition alpha_and_foreground :: "nat \<Rightarrow> nat \<Rightarrow> ndarray \<Rightarrow> error + image \<times> rgba" where
  "alpha_and_foreground h w result_np =
     (case result_np of
        Array2 _ \<Rightarrow> Inl IndexError
      | Array3 channels data \<Rightarrow>
          if channels = 4
          then Inr (map (map (\<lambda>p. p ! 3)) data,
                    map (map (\<lambda>p. (p ! 2, p ! 1, p ! 0, p ! 3))) data)
          else (let alpha = full h w (1 * 255)
                in if channels = 3
                   then (case set_alpha (map (map (\<lambda>p. (p ! 2, p ! 1, p ! 0, 255))) data) alpha of
                           Inl e \<Rightarrow> Inl e
                         | Inr fg_rgba \<Rightarrow> Inr (alpha, fg_rgba))
                   else Inl CvError))"

text \<open>Lines 137 to 169: what a sampled frame computes (the three images to write).\<close>

definition fresh_streams ::
  "blur_px \<Rightarrow> (uint8 \<Rightarrow> uint8) \<Rightarrow> nat \<Rightarrow> nat \<Rightarrow> int \<Rightarrow> ndarray \<Rightarrow> error + rgba \<times> rgba \<times> rgba" where
  "fresh_streams bp op h w stroke_size result_np =
     (case alpha_and_foreground h w result_np of
        Inl e \<Rightarrow> Inl e
      | Inr (alpha0, fg0) \<Rightarrow>
         (case GaussianBlur bp alpha0 3 of
            Inl e \<Rightarrow> Inl e
          | Inr alpha \<Rightarrow>
             (case set_alpha fg0 alpha of
                Inl e \<Rightarrow> Inl e
              | Inr fg_rgba \<Rightarrow>
                 (case create_outline bp alpha stroke_size of
                    Inl e \<Rightarrow> Inl e
                  | Inr outline_alpha \<Rightarrow>
                     (case flat_frame 255 h w outline_alpha of
                        Inl e \<Rightarrow> Inl e
                      | Inr outline_rgba \<Rightarrow>
                         (case create_shadow bp op alpha 10 12 25 of
                            Inl e \<Rightarrow> Inl e
                          | Inr shadow_alpha \<Rightarrow>
                             (case flat_frame 0 h w shadow_alpha of
                                Inl e \<Rightarrow> Inl e
                              | Inr shadow_rgba \<Rightarrow>
                                  Inr (fg_rgba, outline_rgba, shadow_rgba))))))))"

record 'f fast_state =
  frame_idx :: int
  processed :: int
  last_fg :: "rgba option"
  last_outline_rgba :: "rgba option"
  last_shadow :: "rgba option"
  fg_dir :: "(int \<times> rgba) list"
  outline_dir :: "(int \<times> rgba) list"
  shadow_dir :: "(int \<times> rgba) list"
  segmented_fast :: "'f list"

text \<open>Lines 176 to 179: the three writes, once a result exists.\<close>

definition write_frames :: "'f fast_state \<Rightarrow> error + 'f fast_state" where
  "write_frames st =
     (case last_fg st of
        None \<Rightarrow> Inr st
      | Some fg \<Rightarrow>
         (case last_outline_rgba st of
            None \<Rightarrow> Inl CvError
          | Some ol \<Rightarrow>
             (case last_shadow st of
                None \<Rightarrow> Inl CvError
              | Some sh \<Rightarrow>
                  Inr (st\<lparr>fg_dir := fg_dir st @ [(frame_idx st, fg)],
                          outline_dir := outline_dir st @ [(frame_idx st, ol)],
                          shadow_dir := shadow_dir st @ [(frame_idx st, sh)]\<rparr>))))"

text \<open>Lines 131 to 181, the loop.\<close>

fun fast_loop ::
  "blur_px \<Rightarrow> (uint8 \<Rightarrow> uint8) \<Rightarrow> ('f \<Rightarrow> ndarray) \<Rightarrow> nat \<Rightarrow> nat \<Rightarrow> int \<Rightarrow> int \<Rightarrow> 'f list
   \<Rightarrow> 'f fast_state \<Rightarrow> error option \<times> 'f fast_state" where
  "fast_loop bp op remove h w stroke_size sample_rate [] st = (None, st)"
| "fast_loop bp op remove h w stroke_size sample_rate (frame # rest) st =
     (if sample_rate = 0 then (Some ZeroDivisionError, st)
      else
        (case (if frame_idx st mod sample_rate = 0
               then (case fresh_streams bp op h w stroke_size (remove frame) of
                       Inl e \<Rightarrow> Inl e
                     | Inr (fg_rgba, outline_rgba, shadow_rgba) \<Rightarrow>
                         Inr (st\<lparr>last_fg := Some fg_rgba,
                                 last_outline_rgba := Some outline_rgba,
                                 last_shadow := Some shadow_rgba,
                                 processed := processed st + 1,
                                 segmented_fast := segmented_fast st @ [frame]\<rparr>))
               else Inr st) of
           Inl e \<Rightarrow> (Some e, st)
         | Inr st1 \<Rightarrow>
            (case write_frames st1 of
               Inl e \<Rightarrow> (Some e, st1)
             | Inr st2 \<Rightarrow>
                 fast_loop bp op remove h w stroke_size sample_rate rest
                   (st2\<lparr>frame_idx := frame_idx st2 + 1\<rparr>))))"

definition fast_init :: "'f fast_state" where
  "fast_init = \<lparr>frame_idx = 0, processed = 0, last_fg = None, last_outline_rgba = None,
                last_shadow = None, fg_dir = [], outline_dir = [], shadow_dir = [],
                segmented_fast = []\<rparr>"

definition temp_fast :: "'f fast_state \<Rightarrow> (string \<times> int \<times> rgba) list" where
  "temp_fast st =
     map (\<lambda>(i, img). (''fg'', i, img)) (fg_dir st)
     @ map (\<lambda>(i, img). (''outline'', i, img)) (outline_dir st)
     @ map (\<lambda>(i, img). (''shadow'', i, img)) (shadow_dir st)"

text \<open>
  Lines 189 to 200: \<open>subprocess.run(..., check=True)\<close> raises CalledProcessError on a
  non-zero exit status, once per stream in the order foreground, outline, shadow;
  \<open>shutil.rmtree\<close> comes after the third.
\<close>

definition process_video_fast ::
  "blur_px \<Rightarrow> (uint8 \<Rightarrow> uint8) \<Rightarrow> ('f \<Rightarrow> ndarray) \<Rightarrow> (string \<Rightarrow> (int \<times> rgba) list \<Rightarrow> int)
   \<Rightarrow> 'f video \<Rightarrow> int \<Rightarrow> int \<Rightarrow> run_result" where
  "process_video_fast bp op remove ffmpeg v stroke_size sample_rate =
     (case fast_loop bp op remove (frame_height v) (frame_width v) stroke_size sample_rate
             (frames v) fast_init of
        (Some e, st) \<Rightarrow> \<lparr>raised = Some e, temp_files = temp_fast st, videos = []\<rparr>
      | (None, st) \<Rightarrow>
          if ffmpeg ''fg'' (fg_dir st) \<noteq> 0
          then \<lparr>raised = Some CalledProcessError, temp_files = temp_fast st, videos = []\<rparr>
          else if ffmpeg ''outline'' (outline_dir st) \<noteq> 0
          then \<lparr>raised = Some CalledProcessError, temp_files = temp_fast st, videos = [''fg'']\<rparr>
          else if ffmpeg ''shadow'' (shadow_dir st) \<noteq> 0
          then \<lparr>raised = Some CalledProcessError, temp_files = temp_fast st,
                videos = [''fg'', ''outline'']\<rparr>
          else \<lparr>raised = None, temp_files = [], videos = [''fg'', ''outline'', ''shadow'']\<rparr>)"

text \<open>Lines 207 to 217: the parsed options go to \<open>process_video_fast\<close> as they are.\<close>

definition main_fast ::
  "blur_px \<Rightarrow> (uint8 \<Rightarrow> uint8) \<Rightarrow> ('f \<Rightarrow> ndarray) \<Rightarrow> (string \<Rightarrow> (int \<times> rgba) list \<Rightarrow> int)
   \<Rightarrow> 'f video \<Rightarrow> cli_args \<Rightarrow> run_result" where
  "main_fast bp op remove ffmpeg v args =
     process_video_fast bp op remove ffmpeg v (stroke args) (sample args)"

section \<open>Frame Sampler: which frame a written image comes from\<close>

text \<open>
  What a sampled frame writes in create-human-outline.py (lines 106 to 130): the
  outline of its mask as the alpha channel of a white frame.
\<close>

definition outline_frame ::
  "blur_px \<Rightarrow> ('f \<Rightarrow> image) \<Rightarrow> nat \<Rightarrow> nat \<Rightarrow> int \<Rightarrow> 'f \<Rightarrow> error + rgba" where
  "outline_frame bp remove h w stroke_size frame =
     (case create_outline_from_mask bp (remove frame) stroke_size of
        Inl e \<Rightarrow> Inl e
      | Inr outline \<Rightarrow> flat_frame 255 h w outline)"

text \<open>
  extract-foreground.py tests the 0-based index before it is incremented: position
  \<open>i\<close> is sampled when \<open>i mod N = 0\<close>, and the latest sampled position up to \<open>i\<close> is
  \<open>i - i mod N\<close>. create-human-outline.py tests the 1-based count after the
  increment and also samples when nothing has been computed yet: position \<open>i\<close>
  (0-based) is sampled when \<open>i = 0\<close> or \<open>(i + 1) mod N = 0\<close>.
\<close>

definition sampled_fast :: "nat \<Rightarrow> nat \<Rightarrow> bool" where
  "sampled_fast N i \<longleftrightarrow> i mod N = 0"

definition source_fast :: "nat \<Rightarrow> nat \<Rightarrow> nat" where
  "source_fast N i = i - i mod N"

definition sampled_outline :: "nat \<Rightarrow> nat \<Rightarrow> bool" where
  "sampled_outline N i \<longleftrightarrow> i = 0 \<or> (i + 1) mod N = 0"

definition source_outline :: "nat \<Rightarrow> nat \<Rightarrow> nat" where
  "source_outline N i = (if i + 1 < N then 0 else i - (i + 1) mod N)"

section \<open>Sample collaborators\<close>

text \<open>
  Small stand-ins for the external collaborators, to run the scripts on concrete
  videos: a blur that copies its source, an attenuation that halves, a Mask Source
  that answers with the (single-channel) frame itself, alone or as the four equal
  channels of an RGBA array, and encoders that exit with status 0 or 1.
\<close>

definition copy_blur :: blur_px where
  "copy_blur k src y x = src ! y ! x"

definition halve :: "uint8 \<Rightarrow> uint8" where
  "halve v = drop_bit 1 v"

definition echo_mask :: "image \<Rightarrow> image" where
  "echo_mask frame = frame"

definition echo_rgba :: "image \<Rightarrow> ndarray" where
  "echo_rgba frame = Array3 4 (map (map (\<lambda>v. [v, v, v, v])) frame)"

definition encoder_ok :: "string \<Rightarrow> (int \<times> rgba) list \<Rightarrow> int" where
  "encoder_ok name files = 0"

definition encoder_fails :: "string \<Rightarrow> (int \<times> rgba) list \<Rightarrow> int" where
  "encoder_fails name files = 1"

definition four_frames :: "image video" where
  "four_frames = \<lparr>frames = [[[255, 0], [0, 0]], [[0, 255], [0, 0]], [[0, 0], [255, 0]], [[0, 0], [0, 255]]],
                  frame_height = 2, frame_width = 2\<rparr>"

definition one_frame :: "image video" where
  "one_frame = \<lparr>frames = [[[255]]], frame_height = 1, frame_width = 1\<rparr>"

text \<open>A mask whose only subject pixel is the bottom right corner.\<close>

definition corner_mask :: image where
  "corner_mask = [[0, 0, 0], [0, 0, 0], [0, 0, 255]]"

section \<open>The outline in the words of the specification\<close>

text \<open>
  The specification gives the outline as: binarize at 127; the inner stroke is the
  mask dilated by the small disk minus the mask; the outer glow is the mask dilated
  by the large disk minus the inner-dilated region, blurred and attenuated; the
  result is their saturating sum. This definition follows those words, with the
  sizes of the two elements and of the blur and the attenuation as parameters, for
  comparison with \<open>create_outline_from_mask\<close> and \<open>create_outline\<close>.
\<close>

definition spec_outline ::
  "blur_px \<Rightarrow> image \<Rightarrow> int \<Rightarrow> int \<Rightarrow> int \<Rightarrow> nat \<Rightarrow> nat \<Rightarrow> error + image" where
  "spec_outline bp msk k_inner k_outer k_blur num den =
     (let B = threshold msk 127 255
      in case getStructuringElement k_inner of
           Inl e \<Rightarrow> Inl e
         | Inr disk_inner \<Rightarrow>
            (case getStructuringElement k_outer of
               Inl e \<Rightarrow> Inl e
             | Inr disk_outer \<Rightarrow>
                (let inner_stroke = subtract (dilate B disk_inner) B;
                     outer_region = subtract (dilate B disk_outer) (dilate B disk_inner)
                 in case GaussianBlur bp outer_region k_blur of
                      Inl e \<Rightarrow> Inl e
                    | Inr blurred \<Rightarrow> Inr (add (scale num den blurred) inner_stroke))))"

text \<open>
  A pixel is covered by a dilation when some set cell of the element, laid with its
  anchor on the pixel, lies on a subject pixel of the image.
\<close>

definition covered :: "image \<Rightarrow> kernel \<Rightarrow> nat \<Rightarrow> nat \<Rightarrow> bool" where
  "covered B K y x =
     list_ex (\<lambda>(dy, dx). pixel_at 0 B (int y + dy) (int x + dx) = 255) (kernel_offsets K)"

text \<open>
  A stand-in for the library's blur of size 5: the weights (1, 4, 6, 4, 1) / 16 in
  each direction, the border reflected without repeating the edge pixel, the sum
  rounded to the nearest integer.
\<close>

definition reflect101 :: "nat \<Rightarrow> int \<Rightarrow> nat" where
  "reflect101 n p =
     (if n \<le> 1 then 0
      else (let period = 2 * (int n - 1); q = p mod period
            in nat (if q < int n then q else period - q)))"

definition binomial5 :: "int \<Rightarrow> nat" where
  "binomial5 d = (if d = 0 then 6 else if d = 1 \<or> d = - 1 then 4 else if d = 2 \<or> d = - 2 then 1 else 0)"

definition gaussian5 :: blur_px where
  "gaussian5 k src y x =
     of_nat ((sum_list (map (\<lambda>dy. sum_list (map (\<lambda>dx.
                binomial5 dy * binomial5 dx
                * unat (src ! reflect101 (height src) (int y + dy) ! reflect101 (width src) (int x + dx)))
              [- 2, - 1, 0, 1, 2])) [- 2, - 1, 0, 1, 2]) + 128) div 256)"

text \<open>A mask with a one-pixel hole in the subject.\<close>

definition hole_mask :: image where
  "hole_mask = [[255, 255, 255], [255, 0, 255], [255, 255, 255]]"

section \<open>The dimension invariant of the loops\<close>






section \<open>Shapes\<close>

text \<open>Every primitive returns an image of the shape of its source.\<close>

lemma has_shape_height: "has_shape h w a \<Longrightarrow> height a = h"
  by (simp add: has_shape_def height_def)

lemma has_shape_width: "has_shape h w a \<Longrightarrow> 0 < h \<Longrightarrow> width a = w"
  by (cases a) (auto simp: has_shape_def width_def)

lemma has_shape_row: "has_shape h w a \<Longrightarrow> y < h \<Longrightarrow> length (a ! y) = w"
  by (auto simp: has_shape_def list_all_length)

lemma has_shape_map: "has_shape h w a \<Longrightarrow> has_shape h w (map (map f) a)"
  by (auto simp: has_shape_def list_all_iff)

lemma has_shape_map2:
  "has_shape h w a \<Longrightarrow> has_shape h w b \<Longrightarrow> has_shape h w (map2 (map2 f) a b)"
  by (auto simp: has_shape_def list_all_length)

lemma has_shape_table: "has_shape h w (map (\<lambda>y. map (f y) [0..<w]) [0..<h])"
  by (auto simp: has_shape_def list_all_iff)

lemma has_shape_table_of:
  "has_shape h w a \<Longrightarrow> has_shape h w (map (\<lambda>y. map (f y) [0..<width a]) [0..<height a])"
  by (cases "h = 0") (auto simp: has_shape_height has_shape_width has_shape_table, simp add: has_shape_def)

lemma has_shape_full: "has_shape h w (full h w v)"
  by (simp add: has_shape_def full_def list_all_iff)

lemma table_nth: "has_shape h w a \<Longrightarrow> map (\<lambda>y. map (\<lambda>x. a ! y ! x) [0..<w]) [0..<h] = a"
  by (auto simp: has_shape_def list_all_length intro!: nth_equalityI)

lemma has_shape_threshold: "has_shape h w a \<Longrightarrow> has_shape h w (threshold a t m)"
  by (simp add: threshold_def has_shape_map)

lemma has_shape_dilate: "has_shape h w a \<Longrightarrow> has_shape h w (dilate a K)"
  unfolding dilate_def by (rule has_shape_table_of)

lemma has_shape_erode: "has_shape h w a \<Longrightarrow> has_shape h w (erode a K)"
  unfolding erode_def by (rule has_shape_table_of)

lemma has_shape_morph_close: "has_shape h w a \<Longrightarrow> has_shape h w (morph_close a K)"
  by (simp add: morph_close_def has_shape_dilate has_shape_erode)

lemma has_shape_subtract: "has_shape h w a \<Longrightarrow> has_shape h w b \<Longrightarrow> has_shape h w (subtract a b)"
  by (simp add: subtract_def has_shape_map2)

lemma has_shape_add: "has_shape h w a \<Longrightarrow> has_shape h w b \<Longrightarrow> has_shape h w (add a b)"
  by (simp add: add_def has_shape_map2)

lemma has_shape_scale: "has_shape h w a \<Longrightarrow> has_shape h w (scale n d a)"
  by (simp add: scale_def has_shape_map)

lemma has_shape_clip: "has_shape h w a \<Longrightarrow> has_shape h w (clip a lo hi)"
  by (simp add: clip_def has_shape_map)

lemma GaussianBlur_shape:
  "has_shape h w a \<Longrightarrow> GaussianBlur bp a k = Inr b \<Longrightarrow> has_shape h w b"
  by (auto simp: GaussianBlur_def has_shape_table_of split: if_splits)

lemma GaussianBlur_returns:
  "0 < k \<Longrightarrow> odd k \<Longrightarrow> \<exists>b. GaussianBlur bp a k = Inr b"
  by (auto simp: GaussianBlur_def)

lemma broadcast_to_same:
  assumes "has_shape h w a" "0 < h"
  shows "broadcast_to h w a = Inr a"
proof -
  have hw: "height a = h" "width a = w"
    using assms by (simp_all add: has_shape_height has_shape_width)
  have "map (\<lambda>y. map (\<lambda>x. a ! (if h = 1 then 0 else y) ! (if w = 1 then 0 else x)) [0..<w]) [0..<h] = a"
    using assms(1) by (auto simp: has_shape_def list_all_length intro!: nth_equalityI)
  then show ?thesis
    by (simp add: broadcast_to_def Let_def hw)
qed

lemma broadcast_to_shape: "broadcast_to h w a = Inr b \<Longrightarrow> has_shape h w b"
  by (auto simp: broadcast_to_def Let_def has_shape_table split: if_splits)

lemma flat_frame_shape: "flat_frame c h w a = Inr img \<Longrightarrow> has_shape h w img"
  by (auto simp: flat_frame_def has_shape_map broadcast_to_shape split: sum.splits)

lemma flat_frame_same: "has_shape h w a \<Longrightarrow> 0 < h \<Longrightarrow> flat_frame c h w a = Inr (map (map (\<lambda>v. (c, c, c, v))) a)"
  by (simp add: flat_frame_def broadcast_to_same)

section \<open>Binarize\<close>

lemma threshold_px_binary:
  "threshold_px 127 255 0 = 0" "threshold_px 127 255 255 = 255"
  by (simp_all add: threshold_px_def)

lemma threshold_rows_id:
  "list_all (\<lambda>v. v = 0 \<or> v = 255) r \<Longrightarrow> map (threshold_px 127 255) r = r"
  by (induction r) (auto simp: threshold_px_def)

text \<open>
  Claim C8. The binarize step of both stylizers (\<open>cv2.threshold\<close> at 127 with
  maximum 255) leaves a mask unchanged when each of its pixels is already 0 or 255:
  0 stays 0 and 255 stays 255.
\<close>

theorem binarize_idempotent_on_binary:
  assumes "list_all (list_all (\<lambda>v. v = 0 \<or> v = 255)) msk"
  shows "threshold msk 127 255 = msk"
  using assms unfolding threshold_def
  by (induction msk) (simp_all add: threshold_rows_id)

theorem binarize_idempotent_on_binary_witness:
  "list_all (list_all (\<lambda>v. v = 0 \<or> v = 255)) [[0, 255], [255, 0 :: uint8]]
   \<and> threshold [[0, 255], [255, 0]] 127 255 = [[0, 255], [255, 0]]"
  using binarize_idempotent_on_binary [of "[[0, 255], [255, 0]]"]
  by simp

section \<open>Stylizer: results exist and keep the shape\<close>

lemma getStructuringElement_pos: "0 < k \<Longrightarrow> getStructuringElement k = Inr (ellipse (nat k))"
  by (simp add: getStructuringElement_def)

lemma getStructuringElement_nonpos: "k \<le> 0 \<Longrightarrow> getStructuringElement k = Inl CvError"
  by (simp add: getStructuringElement_def)

lemma GaussianBlur_ok:
  assumes "has_shape h w a" "0 < k" "odd k"
  shows "\<exists>b. GaussianBlur bp a k = Inr b \<and> has_shape h w b"
proof -
  obtain b where b: "GaussianBlur bp a k = Inr b"
    using GaussianBlur_returns [OF assms(2,3)] by blast
  with GaussianBlur_shape [OF assms(1) b] show ?thesis by blast
qed

lemma or_one_pos: "0 \<le> s \<Longrightarrow> 0 < ((s::int) OR 1)"
  using or_nonnegative_int_iff [of s 1] even_or_iff [of s 1]
  by (metis dvd_0_right less_le odd_one zero_le_one)

lemma or_one_odd: "odd ((s::int) OR 1)"
  by (simp add: even_or_iff)

lemma create_outline_from_mask_ok:
  assumes "has_shape h w m" "0 \<le> s"
  shows "\<exists>out. create_outline_from_mask bp m s = Inr out \<and> has_shape h w out"
proof -
  let ?B = "threshold m 127 255"
  have B: "has_shape h w ?B" by (simp add: has_shape_threshold assms(1))
  have inner: "inner_outline_from_mask m s = Inr (subtract (dilate ?B (ellipse (nat (s + 1)))) ?B)"
    using assms(2) by (simp add: inner_outline_from_mask_def getStructuringElement_pos Let_def)
  have outer: "outer_glow_from_mask m s = Inr (subtract (dilate ?B (ellipse (nat (s * 3 + 1)))) ?B)"
    using assms(2) by (simp add: outer_glow_from_mask_def getStructuringElement_pos Let_def)
  have si: "has_shape h w (subtract (dilate ?B (ellipse (nat (s + 1)))) ?B)"
    by (simp add: has_shape_subtract has_shape_dilate B)
  have so: "has_shape h w (subtract (dilate ?B (ellipse (nat (s * 3 + 1)))) ?B)"
    by (simp add: has_shape_subtract has_shape_dilate B)
  have "0 < s * 4 + 1" "odd (s * 4 + 1)" using assms(2) by simp_all
  from GaussianBlur_ok [OF so this] obtain b where
    b: "GaussianBlur bp (subtract (dilate ?B (ellipse (nat (s * 3 + 1)))) ?B) (s * 4 + 1) = Inr b"
    and sb: "has_shape h w b" by blast
  have "create_outline_from_mask bp m s
          = Inr (clip (add (scale 3 5 b) (subtract (dilate ?B (ellipse (nat (s + 1)))) ?B)) 0 255)"
    by (simp add: create_outline_from_mask_def inner outer b)
  moreover have "has_shape h w (clip (add (scale 3 5 b) (subtract (dilate ?B (ellipse (nat (s + 1)))) ?B)) 0 255)"
    by (simp add: has_shape_clip has_shape_add has_shape_scale sb si)
  ultimately show ?thesis by blast
qed

lemma has_shape_clean_binary: "has_shape h w a \<Longrightarrow> has_shape h w (clean_binary a)"
  by (simp add: clean_binary_def has_shape_morph_close has_shape_threshold)

lemma create_outline_ok:
  assumes "has_shape h w a" "1 \<le> s"
  shows "\<exists>out. create_outline bp a s = Inr out \<and> has_shape h w out"
proof -
  let ?B = "clean_binary a"
  have B: "has_shape h w ?B" by (simp add: has_shape_clean_binary assms(1))
  have inner: "inner_of_outline a s = Inr (subtract (dilate ?B (ellipse (nat s))) ?B)"
    using assms(2) by (simp add: inner_of_outline_def getStructuringElement_pos Let_def)
  have outer: "outer_of_outline a s
      = Inr (subtract (dilate ?B (ellipse (nat (s * 2)))) (dilate ?B (ellipse (nat s))))"
    using assms(2) by (simp add: outer_of_outline_def getStructuringElement_pos Let_def)
  have si: "has_shape h w (subtract (dilate ?B (ellipse (nat s))) ?B)"
    by (simp add: has_shape_subtract has_shape_dilate B)
  have so: "has_shape h w (subtract (dilate ?B (ellipse (nat (s * 2)))) (dilate ?B (ellipse (nat s))))"
    by (simp add: has_shape_subtract has_shape_dilate B)
  have "0 < (s OR 1)" "odd (s OR 1)" using assms(2) by (simp_all add: or_one_pos or_one_odd)
  from GaussianBlur_ok [OF so this] obtain b where
    b: "GaussianBlur bp (subtract (dilate ?B (ellipse (nat (s * 2)))) (dilate ?B (ellipse (nat s)))) (s OR 1) = Inr b"
    and sb: "has_shape h w b" by blast
  have "create_outline bp a s
          = Inr (clip (add (scale 1 2 b) (subtract (dilate ?B (ellipse (nat s))) ?B)) 0 255)"
    by (simp add: create_outline_def inner outer b)
  moreover have "has_shape h w (clip (add (scale 1 2 b) (subtract (dilate ?B (ellipse (nat s))) ?B)) 0 255)"
    by (simp add: has_shape_clip has_shape_add has_shape_scale sb si)
  ultimately show ?thesis by blast
qed

lemma create_outline_stroke_zero: "create_outline bp a 0 = Inl CvError"
  by (simp add: create_outline_def inner_of_outline_def getStructuringElement_nonpos Let_def)

section \<open>Drop shadow: the offset\<close>

lemma py_index_simps:
  "0 \<le> i \<Longrightarrow> py_index n i = min (nat i) n"
  "i < 0 \<Longrightarrow> py_index n i = nat (int n + i)"
  by (auto simp: py_index_def)

lemma full_nth: "y < h \<Longrightarrow> x < w \<Longrightarrow> full h w v ! y ! x = v"
  by (simp add: full_def)

lemma offset_shadow_negative:
  assumes "offset_x < 0 \<or> offset_y < 0"
  shows "offset_shadow shadow offset_x offset_y = Inr (full (height shadow) (width shadow) 0)"
  using assms by (auto simp: offset_shadow_def Let_def)

lemma offset_shadow_inside:
  assumes sh: "has_shape h w shadow" and "0 < h"
    and ox: "0 \<le> ox" "ox \<le> int w" and oy: "0 \<le> oy" "oy \<le> int h"
  shows "offset_shadow shadow ox oy =
           Inr (map (\<lambda>y. map (\<lambda>x. if nat oy \<le> y \<and> nat ox \<le> x
                                      then shadow ! (y - nat oy) ! (x - nat ox) else 0) [0..<w]) [0..<h])"
proof -
  have hw: "height shadow = h" "width shadow = w"
    using sh \<open>0 < h\<close> by (simp_all add: has_shape_height has_shape_width)
  have idx: "py_index h oy = nat oy" "py_index w ox = nat ox"
       "py_index h (int h - oy) = h - nat oy" "py_index w (int w - ox) = w - nat ox"
    using ox oy by (auto simp: py_index_def)
  show ?thesis
    using ox oy by (auto simp: offset_shadow_def Let_def hw idx full_nth)
qed

lemma offset_shadow_raises_rows:
  assumes sh: "has_shape h w shadow" and "0 \<le> ox" and "int h < oy" and "oy + 1 < 2 * int h"
  shows "offset_shadow shadow ox oy = Inl ValueError"
proof -
  have hw: "height shadow = h" using sh by (simp add: has_shape_height)
  have "0 \<le> oy" using assms by linarith
  have a: "py_index h oy = h" using assms by (auto simp: py_index_def)
  have b: "py_index h (int h - oy) = nat (2 * int h - oy)" using assms by (auto simp: py_index_def)
  have c: "nat (2 * int h - oy) \<noteq> 0" "nat (2 * int h - oy) \<noteq> 1" using assms by linarith+
  show ?thesis
    using \<open>0 \<le> ox\<close> \<open>0 \<le> oy\<close> c by (simp add: offset_shadow_def Let_def hw a b)
qed

section \<open>Drop shadow: create_shadow\<close>

lemma create_shadow_unfold:
  assumes "has_shape h w alpha" "0 \<le> blur"
  shows "\<exists>S. has_shape h w S \<and> create_shadow bp op alpha ox oy blur = offset_shadow S ox oy"
proof -
  let ?D = "dilate (threshold alpha 100 255) (ellipse 5)"
  have D: "has_shape h w ?D" by (simp add: has_shape_dilate has_shape_threshold assms(1))
  have "0 < (blur OR 1)" "odd (blur OR 1)" using assms(2) by (simp_all add: or_one_pos or_one_odd)
  from GaussianBlur_ok [OF D this] obtain b where
    b: "GaussianBlur bp ?D (blur OR 1) = Inr b" and sb: "has_shape h w b" by blast
  have "create_shadow bp op alpha ox oy blur = offset_shadow (map (map op) b) ox oy"
    by (simp add: create_shadow_def Let_def getStructuringElement_pos b)
  moreover have "has_shape h w (map (map op) b)" by (simp add: has_shape_map sb)
  ultimately show ?thesis by blast
qed

lemma create_shadow_negative:
  assumes "has_shape h w alpha" "0 < h" "0 \<le> blur" "ox < 0 \<or> oy < 0"
  shows "create_shadow bp op alpha ox oy blur = Inr (full h w 0)"
proof -
  from create_shadow_unfold [OF assms(1,3)] obtain S where
    S: "has_shape h w S" "create_shadow bp op alpha ox oy blur = offset_shadow S ox oy" by blast
  have "height S = h" "width S = w" using S(1) assms(2) by (simp_all add: has_shape_height has_shape_width)
  then show ?thesis using S(2) offset_shadow_negative [OF assms(4), of S] by simp
qed

lemma create_shadow_inside:
  assumes "has_shape h w alpha" "0 < h" "0 \<le> blur" "0 \<le> ox" "ox \<le> int w" "0 \<le> oy" "oy \<le> int h"
  shows "\<exists>S r. has_shape h w S \<and> has_shape h w r
           \<and> create_shadow bp op alpha ox oy blur = Inr r
           \<and> (\<forall>y<h. \<forall>x<w. r ! y ! x = (if nat oy \<le> y \<and> nat ox \<le> x then S ! (y - nat oy) ! (x - nat ox) else 0))"
proof -
  from create_shadow_unfold [OF assms(1,3)] obtain S where
    S: "has_shape h w S" "create_shadow bp op alpha ox oy blur = offset_shadow S ox oy" by blast
  let ?r = "map (\<lambda>y. map (\<lambda>x. if nat oy \<le> y \<and> nat ox \<le> x
                                      then S ! (y - nat oy) ! (x - nat ox) else 0) [0..<w]) [0..<h]"
  have "create_shadow bp op alpha ox oy blur = Inr ?r"
    using S(2) offset_shadow_inside [OF S(1) assms(2) assms(4-7)] by simp
  moreover have "has_shape h w ?r" by (rule has_shape_table)
  moreover have "\<forall>y<h. \<forall>x<w. ?r ! y ! x = (if nat oy \<le> y \<and> nat ox \<le> x then S ! (y - nat oy) ! (x - nat ox) else 0)"
    by simp
  ultimately show ?thesis using S(1) by blast
qed

lemma create_shadow_raises:
  assumes "has_shape h w alpha" "0 \<le> blur" "0 \<le> ox" "int h < oy" "oy + 1 < 2 * int h"
  shows "create_shadow bp op alpha ox oy blur = Inl ValueError"
proof -
  from create_shadow_unfold [OF assms(1,2)] obtain S where
    S: "has_shape h w S" "create_shadow bp op alpha ox oy blur = offset_shadow S ox oy" by blast
  show ?thesis using S(2) offset_shadow_raises_rows [OF S(1) assms(3-5)] by simp
qed

text \<open>
  Claim C4. Inside the frame (\<open>0 \<le> dx \<le> w\<close>, \<open>0 \<le> dy \<le> h\<close>) the offset is the
  translation that \<open>create_shadow_inside\<close> describes: zero above row \<open>dy\<close> and
  left of column \<open>dx\<close>, the shifted shadow elsewhere, nothing wrapped. With an offset
  larger than the frame the slice bound \<open>h - offset_y\<close> is negative and counts from
  the end, the two sides of the assignment differ in shape, and the call raises
  ValueError: with the offsets (10, 12) that the driver uses, on a frame of 8 x 8.
\<close>

theorem shadow_offset_beyond_frame_raises:
  "create_shadow bp op (full 8 8 255) 10 12 25 = Inl ValueError"
  by (rule create_shadow_raises [where h = 8 and w = 8]) (simp_all add: has_shape_full)

text \<open>
  Claim C7, as amended. A negative offset is not rejected: the guard
  \<open>if offset_y >= 0 and offset_x >= 0\<close> skips the assignment and the call returns the
  all-zero (fully transparent) shadow of the input's shape.
\<close>

theorem negative_offset_returns_blank:
  assumes "has_shape h w alpha" "0 < h" "0 \<le> blur" "offset_x < 0 \<or> offset_y < 0"
  shows "create_shadow bp op alpha offset_x offset_y blur = Inr (full h w 0)"
  using assms by (rule create_shadow_negative)

theorem negative_offset_returns_blank_witness:
  "has_shape 1 1 [[255 :: uint8]] \<and> (0::nat) < 1 \<and> (0::int) \<le> 25 \<and> ((-1::int) < 0 \<or> (0::int) < 0)
   \<and> create_shadow copy_blur halve [[255]] (-1) 0 25 = Inr (full 1 1 0)"
  using negative_offset_returns_blank [of 1 1 "[[255]]" 25 "-1" 0 copy_blur halve]
  by (simp add: has_shape_def)

text \<open>
  Claim C7 as stated fails: with offset -1 on a one-pixel mask no error is raised.
\<close>

theorem negative_offset_not_rejected:
  "create_shadow copy_blur halve [[255]] (-1) 0 25 = Inr [[0]]"
  using create_shadow_negative [of 1 1 "[[255]]" 25 "-1" 0 copy_blur halve]
  by (simp add: has_shape_def full_def)

section \<open>Pixels of the morphology\<close>

lemma map2_nth2:
  assumes "has_shape h w a" "has_shape h w b" "y < h" "x < w"
  shows "map2 (map2 f) a b ! y ! x = f (a ! y ! x) (b ! y ! x)"
  using assms by (simp add: has_shape_def list_all_length)

lemma map_nth2:
  assumes "has_shape h w a" "y < h" "x < w"
  shows "map (map f) a ! y ! x = f (a ! y ! x)"
  using assms by (simp add: has_shape_def list_all_length)

lemma image_eqI2:
  assumes "has_shape h w a" "has_shape h w b" "\<And>y x. y < h \<Longrightarrow> x < w \<Longrightarrow> a ! y ! x = b ! y ! x"
  shows "a = b"
  using assms by (auto simp: has_shape_def list_all_length intro!: nth_equalityI)

lemma pixel_at_inside:
  assumes "has_shape h w src" "y < h" "x < w"
  shows "pixel_at border src (int y) (int x) = src ! y ! x"
  using assms by (simp add: pixel_at_def has_shape_height has_shape_width)

lemma dilate_nth:
  assumes "has_shape h w src" "y < h" "x < w"
  shows "dilate src K ! y ! x
         = fold max (map (\<lambda>(dy, dx). pixel_at 0 src (int y + dy) (int x + dx)) (kernel_offsets K)) 0"
  using assms by (simp add: dilate_def has_shape_height has_shape_width)

lemma erode_nth:
  assumes "has_shape h w src" "y < h" "x < w"
  shows "erode src K ! y ! x
         = fold min (map (\<lambda>(dy, dx). pixel_at 255 src (int y + dy) (int x + dx)) (kernel_offsets K)) 255"
  using assms by (simp add: erode_def has_shape_height has_shape_width)

lemma kernel_offsets_1 [simp]: "kernel_offsets (ellipse (Suc 0)) = [(0, 0)]"
  by (simp add: ellipse_def kernel_offsets_def height_def width_def)

lemma max_zero_word [simp]: "max (v :: uint8) 0 = v"
  by (simp add: max_def)

lemma kernel_offsets_2: "kernel_offsets (ellipse 2) = [(-1, 0), (0, -1), (0, 0)]"
  by code_simp

lemma dilate_unit:
  assumes "has_shape h w src"
  shows "dilate src (ellipse (Suc 0)) = src"
proof (rule image_eqI2 [OF has_shape_dilate [OF assms] assms])
  fix y x assume "y < h" "x < w"
  then show "dilate src (ellipse (Suc 0)) ! y ! x = src ! y ! x"
    using pixel_at_inside [OF assms, of y x 0]
    by (simp add: dilate_nth [OF assms])
qed

lemma subtract_self:
  assumes "has_shape h w a"
  shows "subtract a a = full h w 0"
proof (rule image_eqI2 [OF has_shape_subtract [OF assms assms] has_shape_full])
  fix y x assume "y < h" "x < w"
  then show "subtract a a ! y ! x = full h w 0 ! y ! x"
    by (simp add: subtract_def map2_nth2 [OF assms assms] subtract_px_def full_nth)
qed

lemma scale_zero: "scale n d (full h w 0) = full h w 0"
  by (simp add: scale_def full_def scale_px_def)

lemma add_zero: "add (full h w 0) (full h w 0) = full h w 0"
proof (rule image_eqI2 [OF has_shape_add [OF has_shape_full has_shape_full] has_shape_full])
  fix y x assume "y < h" "x < w"
  then show "add (full h w 0) (full h w 0) ! y ! x = full h w 0 ! y ! x"
    by (simp add: add_def map2_nth2 [OF has_shape_full has_shape_full] add_px_def full_nth)
qed

lemma clip_zero: "clip (full h w 0) 0 255 = full h w 0"
  by (simp add: clip_def full_def)

lemma create_outline_from_mask_stroke_zero:
  assumes "has_shape h w m"
  shows "create_outline_from_mask bp m 0 = Inr (full h w 0)"
proof -
  let ?B = "threshold m 127 255"
  have B: "has_shape h w ?B" by (simp add: has_shape_threshold assms)
  have z: "subtract (dilate ?B (ellipse (Suc 0))) ?B = full h w 0"
    by (simp add: dilate_unit [OF B] subtract_self [OF B])
  have inner: "inner_outline_from_mask m 0 = Inr (full h w 0)"
    by (simp add: inner_outline_from_mask_def getStructuringElement_pos Let_def z)
  have outer: "outer_glow_from_mask m 0 = Inr (full h w 0)"
    by (simp add: outer_glow_from_mask_def getStructuringElement_pos Let_def z)
  have blur: "GaussianBlur bp (full h w 0) 1 = Inr (full h w 0)"
    by (simp add: GaussianBlur_def)
  show ?thesis
    by (simp add: create_outline_from_mask_def inner outer blur scale_zero add_zero clip_zero)
qed

section \<open>Drivers: the sampling interval, the encoder, the Mask Source\<close>

lemma outline_loop_sample_zero:
  "outline_loop bp remove h w s 0 (f # fs) st
     = (Some ZeroDivisionError, st\<lparr>frame_count := frame_count st + 1\<rparr>)"
  by (simp add: Let_def)

lemma fast_loop_sample_zero:
  "fast_loop bp op remove h w s 0 (f # fs) st = (Some ZeroDivisionError, st)"
  by simp

lemma process_video_sample_zero:
  assumes "frames v = f # fs"
  shows "process_video bp remove ffmpeg v s 0
           = \<lparr>raised = Some ZeroDivisionError, temp_files = [], videos = []\<rparr>"
  by (simp add: process_video_def assms outline_loop_sample_zero outline_init_def)

lemma process_video_fast_sample_zero:
  assumes "frames v = f # fs"
  shows "process_video_fast bp op remove ffmpeg v s 0
           = \<lparr>raised = Some ZeroDivisionError, temp_files = [], videos = []\<rparr>"
  by (simp add: process_video_fast_def assms fast_loop_sample_zero fast_init_def temp_fast_def)

text \<open>
  Claim C10. The command line takes \<open>--sample 0\<close> as it is (no check between the
  parsed options and the call). On a video with at least one frame the sampling test
  of the first frame divides by zero, in both scripts, and the run ends with
  ZeroDivisionError: no still image has been written and no video is produced.
\<close>

theorem sample_zero_raises:
  assumes "frames v \<noteq> []" and "sample args = 0"
  shows "main_outline bp remove_mask ffmpeg v args
           = \<lparr>raised = Some ZeroDivisionError, temp_files = [], videos = []\<rparr>
       \<and> main_fast bp op remove_rgba ffmpeg v args
           = \<lparr>raised = Some ZeroDivisionError, temp_files = [], videos = []\<rparr>"
proof -
  from assms(1) obtain f fs where fs: "frames v = f # fs"
    by (cases "frames v") auto
  show ?thesis
    by (simp add: main_outline_def main_fast_def assms(2)
          process_video_sample_zero [OF fs] process_video_fast_sample_zero [OF fs])
qed

theorem sample_zero_raises_witness:
  "frames four_frames \<noteq> [] \<and> sample \<lparr>stroke = 10, sample = 0\<rparr> = 0
   \<and> main_outline copy_blur echo_mask encoder_ok four_frames \<lparr>stroke = 10, sample = 0\<rparr>
        = \<lparr>raised = Some ZeroDivisionError, temp_files = [], videos = []\<rparr>
   \<and> main_fast copy_blur halve echo_rgba encoder_ok four_frames \<lparr>stroke = 10, sample = 0\<rparr>
        = \<lparr>raised = Some ZeroDivisionError, temp_files = [], videos = []\<rparr>"
  using sample_zero_raises [of four_frames "\<lparr>stroke = 10, sample = 0\<rparr>"
          copy_blur echo_mask encoder_ok halve echo_rgba]
  by (simp add: four_frames_def)

lemma process_video_ignores_encoder:
  assumes "outline_loop bp remove (frame_height v) (frame_width v) s n (frames v) outline_init
             = (None, st)"
  shows "process_video bp remove ffmpeg v s n
           = \<lparr>raised = None, temp_files = [],
              videos = (if ffmpeg ''outline'' (frames_dir st) = 0 then [''outline''] else [])\<rparr>"
  using assms by (simp add: process_video_def Let_def)

lemma process_video_fast_checks_encoder:
  assumes "fast_loop bp op remove (frame_height v) (frame_width v) s n (frames v) fast_init
             = (None, st)"
  shows "(ffmpeg ''fg'' (fg_dir st) \<noteq> 0 \<or> ffmpeg ''outline'' (outline_dir st) \<noteq> 0
            \<or> ffmpeg ''shadow'' (shadow_dir st) \<noteq> 0
          \<longrightarrow> raised (process_video_fast bp op remove ffmpeg v s n) = Some CalledProcessError
            \<and> temp_files (process_video_fast bp op remove ffmpeg v s n) = temp_fast st)
       \<and> (ffmpeg ''fg'' (fg_dir st) = 0 \<and> ffmpeg ''outline'' (outline_dir st) = 0
            \<and> ffmpeg ''shadow'' (shadow_dir st) = 0
          \<longrightarrow> raised (process_video_fast bp op remove ffmpeg v s n) = None
            \<and> temp_files (process_video_fast bp op remove ffmpeg v s n) = [])"
  using assms by (simp add: process_video_fast_def)

text \<open>
  Claim C3. extract-foreground.py runs the encoder with \<open>check=True\<close>
  (\<open>process_video_fast_checks_encoder\<close>: a non-zero exit raises and the still images
  stay). create-human-outline.py runs it with \<open>os.system\<close> and drops the exit status:
  with an encoder that exits with status 1, on a video of one frame, nothing is
  raised and the still images are deleted all the same.
\<close>

theorem outline_encoder_failure_ignored:
  "process_video copy_blur echo_mask encoder_fails one_frame 1 1
     = \<lparr>raised = None, temp_files = [], videos = []\<rparr>"
  by code_simp

lemma set_alpha_same_shape:
  assumes "has_shape h w fg" "has_shape h w a" "0 < h"
  shows "set_alpha fg a = Inr (map2 (map2 (\<lambda>(c0, c1, c2, c3) v. (c0, c1, c2, v))) fg a)"
proof -
  have hw: "height fg = h" "width fg = w"
    using assms(1,3) by (simp_all add: has_shape_height has_shape_width)
  show ?thesis
    by (simp add: set_alpha_def hw broadcast_to_same [OF assms(2,3)])
qed


lemma alpha_and_foreground_three:
  assumes "has_shape h w data" "0 < h"
  shows "alpha_and_foreground h w (Array3 3 data)
           = Inr (full h w 255, map (map (\<lambda>p. (p ! 2, p ! 1, p ! 0, 255))) data)"
proof -
  let ?fg = "map (map (\<lambda>p. (p ! 2, p ! 1, p ! 0, 255 :: uint8))) data"
  have fg: "has_shape h w ?fg" by (rule has_shape_map [OF assms(1)])
  have sa: "set_alpha ?fg (full h w 255)
              = Inr (map2 (map2 (\<lambda>(c0, c1, c2, c3) v. (c0, c1, c2, v))) ?fg (full h w 255))"
    by (rule set_alpha_same_shape [OF fg has_shape_full assms(2)])
  have eq: "map2 (map2 (\<lambda>(c0, c1, c2, c3) v. (c0, c1, c2, v))) ?fg (full h w 255) = ?fg"
    using assms(1)
    by (auto simp: has_shape_def list_all_length full_def intro!: nth_equalityI)
  show ?thesis
    using sa eq by (simp add: alpha_and_foreground_def Let_def)
qed

text \<open>
  Claim C5, as amended. Only some malformed answers of the Mask Source are surfaced:
  a two-dimensional array raises IndexError at \<open>shape[2]\<close> and a channel count other
  than 3 and 4 is rejected by the colour conversion. A three-channel answer of the
  frame's size raises nothing: the \<open>else\<close> branch makes the mask all 255 (fully
  opaque) and the foreground gets that alpha.
\<close>

theorem malformed_mask_source:
  assumes "has_shape h w data" "0 < h"
  shows "alpha_and_foreground h w (Array3 3 data)
           = Inr (full h w 255, map (map (\<lambda>p. (p ! 2, p ! 1, p ! 0, 255))) data)
       \<and> alpha_and_foreground h w (Array2 img) = Inl IndexError
       \<and> (channels \<noteq> 3 \<and> channels \<noteq> 4
            \<longrightarrow> alpha_and_foreground h w (Array3 channels data) = Inl CvError)"
  using alpha_and_foreground_three [OF assms]
  by (simp add: alpha_and_foreground_def)

theorem malformed_mask_source_witness:
  "has_shape 1 1 [[[10, 20, 30 :: uint8]]] \<and> (0 :: nat) < 1
   \<and> alpha_and_foreground 1 1 (Array3 3 [[[10, 20, 30]]])
       = Inr (full 1 1 255, [[(30, 20, 10, 255)]])
   \<and> alpha_and_foreground 1 1 (Array2 [[7]]) = Inl IndexError
   \<and> (2 :: nat) \<noteq> 3 \<and> (2 :: nat) \<noteq> 4
   \<and> alpha_and_foreground 1 1 (Array3 2 [[[10, 20, 30]]]) = Inl CvError"
  using malformed_mask_source [of 1 1 "[[[10, 20, 30]]]" "[[7]]" 2]
  by (simp add: has_shape_def)

text \<open>
  Claim C5 as stated fails: a three-channel answer for a frame of one pixel becomes
  the all-opaque mask, with no error.
\<close>

theorem three_channels_coerced_to_opaque:
  "alpha_and_foreground 1 1 (Array3 3 [[[10, 20, 30]]]) = Inr ([[255]], [[(30, 20, 10, 255)]])"
  using alpha_and_foreground_three [of 1 1 "[[[10, 20, 30]]]"]
  by (simp add: has_shape_def full_def)

section \<open>Stylizer: the stroke size at its boundary\<close>

lemma uint8_le_255: "(v :: uint8) \<le> 255"
proof -
  have "(255 :: uint8) = - 1" by simp
  then show ?thesis by (simp only: word_n1_ge)
qed

lemma max_255 [simp]: "max (v :: uint8) 255 = 255" "max 255 (v :: uint8) = 255"
  using uint8_le_255 [of v] by (simp_all add: max_def)

lemma min_255 [simp]: "min 255 (v :: uint8) = v"
  using uint8_le_255 [of v] by (simp add: min_def)

lemma clip_id: "clip a 0 255 = a"
  by (simp add: clip_def map_idI)

lemma add_px_255: "add_px v 255 = 255"
proof (cases "v = 0")
  case True
  then show ?thesis by (simp add: add_px_def)
next
  case False
  then have "0 < unat v" by (simp add: unat_gt_0)
  then show ?thesis by (simp add: add_px_def)
qed

lemma subtract_px_zero: "subtract_px v 0 = v"
  by (simp add: subtract_px_def)

lemma create_outline_from_mask_unfold:
  assumes "has_shape h w m" "0 \<le> s"
  shows "\<exists>b. has_shape h w b
           \<and> GaussianBlur bp (subtract (dilate (threshold m 127 255) (ellipse (nat (s * 3 + 1))))
                                 (threshold m 127 255)) (s * 4 + 1) = Inr b
           \<and> create_outline_from_mask bp m s
               = Inr (add (scale 3 5 b)
                        (subtract (dilate (threshold m 127 255) (ellipse (nat (s + 1))))
                                  (threshold m 127 255)))"
proof -
  let ?B = "threshold m 127 255"
  have B: "has_shape h w ?B" by (simp add: has_shape_threshold assms(1))
  have inner: "inner_outline_from_mask m s = Inr (subtract (dilate ?B (ellipse (nat (s + 1)))) ?B)"
    using assms(2) by (simp add: inner_outline_from_mask_def getStructuringElement_pos Let_def)
  have outer: "outer_glow_from_mask m s = Inr (subtract (dilate ?B (ellipse (nat (s * 3 + 1)))) ?B)"
    using assms(2) by (simp add: outer_glow_from_mask_def getStructuringElement_pos Let_def)
  have so: "has_shape h w (subtract (dilate ?B (ellipse (nat (s * 3 + 1)))) ?B)"
    by (simp add: has_shape_subtract has_shape_dilate B)
  have "0 < s * 4 + 1" "odd (s * 4 + 1)" using assms(2) by simp_all
  from GaussianBlur_ok [OF so this] obtain b where
    b: "GaussianBlur bp (subtract (dilate ?B (ellipse (nat (s * 3 + 1)))) ?B) (s * 4 + 1) = Inr b"
    and sb: "has_shape h w b" by blast
  have "create_outline_from_mask bp m s
          = Inr (add (scale 3 5 b) (subtract (dilate ?B (ellipse (nat (s + 1)))) ?B))"
    by (simp add: create_outline_from_mask_def inner outer b clip_id)
  with b sb show ?thesis by blast
qed

lemma create_outline_unfold:
  assumes "has_shape h w a" "1 \<le> s"
  shows "\<exists>b. has_shape h w b
           \<and> GaussianBlur bp (subtract (dilate (clean_binary a) (ellipse (nat (s * 2))))
                                 (dilate (clean_binary a) (ellipse (nat s)))) (s OR 1) = Inr b
           \<and> create_outline bp a s
               = Inr (add (scale 1 2 b)
                        (subtract (dilate (clean_binary a) (ellipse (nat s))) (clean_binary a)))"
proof -
  let ?B = "clean_binary a"
  have B: "has_shape h w ?B" by (simp add: has_shape_clean_binary assms(1))
  have inner: "inner_of_outline a s = Inr (subtract (dilate ?B (ellipse (nat s))) ?B)"
    using assms(2) by (simp add: inner_of_outline_def getStructuringElement_pos Let_def)
  have outer: "outer_of_outline a s
      = Inr (subtract (dilate ?B (ellipse (nat (s * 2)))) (dilate ?B (ellipse (nat s))))"
    using assms(2) by (simp add: outer_of_outline_def getStructuringElement_pos Let_def)
  have so: "has_shape h w (subtract (dilate ?B (ellipse (nat (s * 2)))) (dilate ?B (ellipse (nat s))))"
    by (simp add: has_shape_subtract has_shape_dilate B)
  have "0 < (s OR 1)" "odd (s OR 1)" using assms(2) by (simp_all add: or_one_pos or_one_odd)
  from GaussianBlur_ok [OF so this] obtain b where
    b: "GaussianBlur bp (subtract (dilate ?B (ellipse (nat (s * 2)))) (dilate ?B (ellipse (nat s)))) (s OR 1) = Inr b"
    and sb: "has_shape h w b" by blast
  have "create_outline bp a s
          = Inr (add (scale 1 2 b) (subtract (dilate ?B (ellipse (nat s))) ?B))"
    by (simp add: create_outline_def inner outer b clip_id)
  with b sb show ?thesis by blast
qed

lemma dilate_2_nth:
  assumes "has_shape h w src" "y < h" "x < w"
  shows "dilate src (ellipse 2) ! y ! x
           = max (src ! y ! x)
               (max (if 0 < x then src ! y ! (x - 1) else 0)
                    (if 0 < y then src ! (y - 1) ! x else 0))"
proof -
  have hw: "height src = h" "width src = w"
    using assms by (simp_all add: has_shape_height has_shape_width)
  have a: "pixel_at 0 src (int y) (int x) = src ! y ! x"
    by (rule pixel_at_inside [OF assms])
  have b: "pixel_at 0 src (int y) (int x - 1) = (if 0 < x then src ! y ! (x - 1) else 0)"
    using assms by (auto simp: pixel_at_def hw nat_diff_distrib')
  have c: "pixel_at 0 src (int y - 1) (int x) = (if 0 < y then src ! (y - 1) ! x else 0)"
    using assms by (auto simp: pixel_at_def hw nat_diff_distrib')
  show ?thesis
    by (simp add: dilate_nth [OF assms] kernel_offsets_2 a b c)
qed

lemma stroke_one_pixel:
  assumes m: "has_shape h w m" and yx: "y < h" "x < w"
    and bg: "threshold m 127 255 ! y ! x = 0"
    and nb: "(0 < y \<and> threshold m 127 255 ! (y - 1) ! x = 255)
             \<or> (0 < x \<and> threshold m 127 255 ! y ! (x - 1) = 255)"
  shows "\<exists>out. create_outline_from_mask bp m 1 = Inr out \<and> out ! y ! x = 255"
proof -
  let ?B = "threshold m 127 255"
  have B: "has_shape h w ?B" by (simp add: has_shape_threshold m)
  from create_outline_from_mask_unfold [OF m, of 1 bp] obtain b where
    sb: "has_shape h w b"
    and out: "create_outline_from_mask bp m 1
               = Inr (add (scale 3 5 b) (subtract (dilate ?B (ellipse 2)) ?B))"
    by auto
  have d: "dilate ?B (ellipse 2) ! y ! x = 255"
    using nb bg by (auto simp: dilate_2_nth [OF B yx])
  have i: "subtract (dilate ?B (ellipse 2)) ?B ! y ! x = 255"
    by (simp add: subtract_def map2_nth2 [OF has_shape_dilate [OF B] B yx] d bg subtract_px_zero)
  have "add (scale 3 5 b) (subtract (dilate ?B (ellipse 2)) ?B) ! y ! x = 255"
    by (simp add: add_def
          map2_nth2 [OF has_shape_scale [OF sb] has_shape_subtract [OF has_shape_dilate [OF B] B] yx]
          i add_px_255)
  with out show ?thesis by simp
qed

text \<open>
  Claim C6 as stated fails on both sides. Stroke size 0 on a two-pixel mask gives the
  all-zero outline in create-human-outline.py, with no error; and stroke size 1 on
  the mask whose subject is the bottom right pixel gives an empty outline in
  extract-foreground.py.
\<close>

theorem stroke_zero_silent_stroke_one_empty:
  "create_outline_from_mask copy_blur [[255, 0]] 0 = Inr [[0, 0]]
   \<and> create_outline copy_blur corner_mask 1 = Inr [[0, 0, 0], [0, 0, 0], [0, 0, 0]]"
proof
  show "create_outline_from_mask copy_blur [[255, 0]] 0 = Inr [[0, 0]]"
    using create_outline_from_mask_stroke_zero [of 1 2 "[[255, 0]]" copy_blur]
    by (simp add: has_shape_def full_def numeral_2_eq_2)
  show "create_outline copy_blur corner_mask 1 = Inr [[0, 0, 0], [0, 0, 0], [0, 0, 0]]"
    by code_simp
qed

section \<open>Frame Sampler: the sampled positions\<close>

lemma source_fast_le: "source_fast N i \<le> i"
  by (simp add: source_fast_def)

lemma source_fast_sampled: "sampled_fast N i \<Longrightarrow> source_fast N i = i"
  by (simp add: source_fast_def sampled_fast_def)

lemma sampled_source_fast: "sampled_fast N (source_fast N i)"
  by (simp add: source_fast_def sampled_fast_def minus_mod_eq_mult_div)

lemma source_fast_hold:
  assumes "\<not> sampled_fast N (Suc m)"
  shows "source_fast N (Suc m) = source_fast N m"
  using assms by (auto simp: source_fast_def sampled_fast_def mod_Suc split: if_splits)

lemma source_fast_latest:
  assumes "source_fast N i < j" "j \<le> i"
  shows "\<not> sampled_fast N j"
proof
  assume "sampled_fast N j"
  then obtain k where k: "j = N * k" by (auto simp: sampled_fast_def)
  have "N * (i div N) < N * k" "N * k \<le> i"
    using assms k by (simp_all add: source_fast_def minus_mod_eq_mult_div)
  then have "i div N < k" "k \<le> i div N"
    by (auto simp: less_eq_div_iff_mult_less_eq div_le_mono
             dest: div_le_mono [of "N * k" i N] intro: ccontr)
  then show False by simp
qed

lemma source_outline_le: "source_outline N i \<le> i"
  by (simp add: source_outline_def)

lemma source_outline_sampled: "sampled_outline N i \<Longrightarrow> source_outline N i = i"
  unfolding source_outline_def sampled_outline_def
  by (cases "i + 1 < N") auto

lemma sampled_source_outline: "0 < N \<Longrightarrow> sampled_outline N (source_outline N i)"
proof -
  assume N: "0 < N"
  show ?thesis
  proof (cases "i + 1 < N")
    case True
    then show ?thesis by (simp add: source_outline_def sampled_outline_def)
  next
    case False
    have "(i + 1) mod N < N" using N by simp
    then have le: "(i + 1) mod N \<le> i" using False by linarith
    have "i - (i + 1) mod N + 1 = (i + 1) - (i + 1) mod N" using le by simp
    also have "\<dots> = N * ((i + 1) div N)" by (simp add: minus_mod_eq_mult_div)
    finally have "(i - (i + 1) mod N + 1) mod N = 0" by simp
    then show ?thesis using False by (simp add: source_outline_def sampled_outline_def)
  qed
qed

lemma source_outline_hold:
  assumes "\<not> sampled_outline N (Suc m)"
  shows "source_outline N (Suc m) = source_outline N m"
  using assms by (auto simp: source_outline_def sampled_outline_def mod_Suc split: if_splits)

lemma sampled_outline_test:
  "((int n + 1) mod int N = 0 \<or> n = 0) \<longleftrightarrow> sampled_outline N n"
proof -
  have "(int n + 1) mod int N = int ((n + 1) mod N)" by (simp add: zmod_int ac_simps)
  then show ?thesis by (auto simp: sampled_outline_def)
qed

lemma sampled_fast_test: "int n mod int N = 0 \<longleftrightarrow> sampled_fast N n"
proof -
  have "int n mod int N = int (n mod N)" by (simp add: zmod_int)
  then show ?thesis by (simp add: sampled_fast_def)
qed

section \<open>One pass of the loops\<close>

lemma outline_loop_append:
  "outline_loop bp remove h w s n (xs @ ys) st =
     (case outline_loop bp remove h w s n xs st of
        (Some e, st') \<Rightarrow> (Some e, st')
      | (None, st') \<Rightarrow> outline_loop bp remove h w s n ys st')"
  by (induction xs arbitrary: st)
     (simp_all add: Let_def split: sum.splits option.splits prod.splits)

lemma fast_loop_append:
  "fast_loop bp op remove h w s n (xs @ ys) st =
     (case fast_loop bp op remove h w s n xs st of
        (Some e, st') \<Rightarrow> (Some e, st')
      | (None, st') \<Rightarrow> fast_loop bp op remove h w s n ys st')"
  by (induction xs arbitrary: st)
     (simp_all add: Let_def split: sum.splits option.splits prod.splits)

lemma outline_last_fresh:
  assumes "n \<noteq> 0" "(frame_count st + 1) mod n = 0 \<or> last_outline st = None"
    and "create_outline_from_mask bp (remove f) s = Inr ol" "flat_frame 255 h w ol = Inr img"
  shows "\<exists>st'. outline_loop bp remove h w s n [f] st = (None, st')
           \<and> frame_count st' = frame_count st + 1
           \<and> last_outline st' = Some ol
           \<and> processed_count st' = processed_count st + 1
           \<and> segmented st' = segmented st @ [f]
           \<and> frames_dir st' = frames_dir st @ [(frame_count st + 1, img)]"
  using assms by (auto simp: Let_def)

lemma outline_last_hold:
  assumes "n \<noteq> 0" "(frame_count st + 1) mod n \<noteq> 0" "last_outline st = Some ol"
    and "flat_frame 255 h w ol = Inr img"
  shows "\<exists>st'. outline_loop bp remove h w s n [f] st = (None, st')
           \<and> frame_count st' = frame_count st + 1
           \<and> last_outline st' = Some ol
           \<and> processed_count st' = processed_count st
           \<and> segmented st' = segmented st
           \<and> frames_dir st' = frames_dir st @ [(frame_count st + 1, img)]"
  using assms by (auto simp: Let_def)

lemma fast_last_fresh:
  assumes "n \<noteq> 0" "frame_idx st mod n = 0"
    and "fresh_streams bp op h w s (remove f) = Inr (a, b, c)"
  shows "\<exists>st'. fast_loop bp op remove h w s n [f] st = (None, st')
           \<and> frame_idx st' = frame_idx st + 1
           \<and> last_fg st' = Some a \<and> last_outline_rgba st' = Some b \<and> last_shadow st' = Some c
           \<and> processed st' = processed st + 1
           \<and> segmented_fast st' = segmented_fast st @ [f]
           \<and> fg_dir st' = fg_dir st @ [(frame_idx st, a)]
           \<and> outline_dir st' = outline_dir st @ [(frame_idx st, b)]
           \<and> shadow_dir st' = shadow_dir st @ [(frame_idx st, c)]"
  using assms by (auto simp: write_frames_def)

lemma fast_last_hold:
  assumes "n \<noteq> 0" "frame_idx st mod n \<noteq> 0"
    and "last_fg st = Some a" "last_outline_rgba st = Some b" "last_shadow st = Some c"
  shows "\<exists>st'. fast_loop bp op remove h w s n [f] st = (None, st')
           \<and> frame_idx st' = frame_idx st + 1
           \<and> last_fg st' = Some a \<and> last_outline_rgba st' = Some b \<and> last_shadow st' = Some c
           \<and> processed st' = processed st
           \<and> segmented_fast st' = segmented_fast st
           \<and> fg_dir st' = fg_dir st @ [(frame_idx st, a)]
           \<and> outline_dir st' = outline_dir st @ [(frame_idx st, b)]
           \<and> shadow_dir st' = shadow_dir st @ [(frame_idx st, c)]"
  using assms by (auto simp: write_frames_def)

section \<open>Frame Sampler: a whole run of the loops\<close>

lemma outline_loop_run:
  assumes N: "0 < N"
    and ok: "\<And>i. i < length fs \<Longrightarrow> sampled_outline N i \<Longrightarrow>
               create_outline_from_mask bp (remove (fs ! i)) s = Inr (L i)
               \<and> flat_frame 255 h w (L i) = Inr (R i)"
  shows "\<exists>st. outline_loop bp remove h w s (int N) fs outline_init = (None, st)
      \<and> frame_count st = int (length fs)
      \<and> last_outline st = (if fs = [] then None else Some (L (source_outline N (length fs - 1))))
      \<and> processed_count st = int (length (filter (sampled_outline N) [0..<length fs]))
      \<and> segmented st = map ((!) fs) (filter (sampled_outline N) [0..<length fs])
      \<and> frames_dir st = map (\<lambda>i. (int i + 1, R (source_outline N i))) [0..<length fs]"
  using ok
proof (induction fs rule: rev_induct)
  case Nil
  show ?case by (simp add: outline_init_def)
next
  case (snoc f xs)
  let ?n = "length xs"
  have okxs: "\<And>i. i < length xs \<Longrightarrow> sampled_outline N i \<Longrightarrow>
               create_outline_from_mask bp (remove (xs ! i)) s = Inr (L i)
               \<and> flat_frame 255 h w (L i) = Inr (R i)"
    using snoc.prems by (metis length_append_singleton less_Suc_eq nth_append)
  from snoc.IH [OF okxs] obtain st where
    run: "outline_loop bp remove h w s (int N) xs outline_init = (None, st)"
    and fc: "frame_count st = int ?n"
    and lo: "last_outline st = (if xs = [] then None else Some (L (source_outline N (?n - 1))))"
    and pc: "processed_count st = int (length (filter (sampled_outline N) [0..<?n]))"
    and sg: "segmented st = map ((!) xs) (filter (sampled_outline N) [0..<?n])"
    and fd: "frames_dir st = map (\<lambda>i. (int i + 1, R (source_outline N i))) [0..<?n]"
    by blast
  have app: "outline_loop bp remove h w s (int N) (xs @ [f]) outline_init
               = outline_loop bp remove h w s (int N) [f] st"
    by (simp add: outline_loop_append run)
  have N0: "int N \<noteq> 0" using N by simp
  have seg: "map ((!) (xs @ [f])) (filter (sampled_outline N) [0..<?n])
               = map ((!) xs) (filter (sampled_outline N) [0..<?n])"
    by (rule map_cong) (auto simp: nth_append)
  show ?case
  proof (cases "sampled_outline N ?n")
    case True
    have test: "(frame_count st + 1) mod int N = 0 \<or> last_outline st = None"
      using True sampled_outline_test [of ?n N] by (auto simp: fc lo)
    have okn: "create_outline_from_mask bp (remove f) s = Inr (L ?n)"
              "flat_frame 255 h w (L ?n) = Inr (R ?n)"
      using snoc.prems [of ?n] True by simp_all
    from outline_last_fresh [where remove = remove and f = f, OF N0 test okn] obtain st' where
      st': "outline_loop bp remove h w s (int N) [f] st = (None, st')"
        "frame_count st' = frame_count st + 1"
        "last_outline st' = Some (L ?n)"
        "processed_count st' = processed_count st + 1"
        "segmented st' = segmented st @ [f]"
        "frames_dir st' = frames_dir st @ [(frame_count st + 1, R ?n)]"
      by blast
    have src: "source_outline N ?n = ?n" by (rule source_outline_sampled [OF True])
    show ?thesis
      using True by (simp add: app st' fc pc sg fd seg src del: outline_loop.simps)
  next
    case False
    then have pos: "xs \<noteq> []" and nz: "(int ?n + 1) mod int N \<noteq> 0"
      using sampled_outline_test [of ?n N] by auto
    then obtain m where m: "?n = Suc m" by (cases xs) auto
    have src: "source_outline N ?n = source_outline N (?n - 1)"
      using source_outline_hold [of N m] False m by simp
    let ?j = "source_outline N (?n - 1)"
    have j: "?j < ?n" "sampled_outline N ?j"
      using source_outline_le [of N "?n - 1"] m sampled_source_outline [OF N] by simp_all
    have flat: "flat_frame 255 h w (L ?j) = Inr (R ?j)"
      using okxs [OF j] by simp
    have lo': "last_outline st = Some (L ?j)" using pos by (simp add: lo)
    have nz': "(frame_count st + 1) mod int N \<noteq> 0" using nz by (simp add: fc)
    from outline_last_hold [where remove = remove and f = f and bp = bp and s = s, OF N0 nz' lo' flat] obtain st' where
      st': "outline_loop bp remove h w s (int N) [f] st = (None, st')"
        "frame_count st' = frame_count st + 1"
        "last_outline st' = Some (L ?j)"
        "processed_count st' = processed_count st"
        "segmented st' = segmented st"
        "frames_dir st' = frames_dir st @ [(frame_count st + 1, R ?j)]"
      by blast
    show ?thesis
      using False by (simp add: app st' fc pc sg fd seg src del: outline_loop.simps)
  qed
qed

lemma fast_loop_run:
  assumes N: "0 < N"
    and ok: "\<And>i. i < length fs \<Longrightarrow> sampled_fast N i \<Longrightarrow>
               fresh_streams bp op h w s (remove (fs ! i)) = Inr (A i, B i, C i)"
  shows "\<exists>st. fast_loop bp op remove h w s (int N) fs fast_init = (None, st)
      \<and> frame_idx st = int (length fs)
      \<and> last_fg st = (if fs = [] then None else Some (A (source_fast N (length fs - 1))))
      \<and> last_outline_rgba st = (if fs = [] then None else Some (B (source_fast N (length fs - 1))))
      \<and> last_shadow st = (if fs = [] then None else Some (C (source_fast N (length fs - 1))))
      \<and> processed st = int (length (filter (sampled_fast N) [0..<length fs]))
      \<and> segmented_fast st = map ((!) fs) (filter (sampled_fast N) [0..<length fs])
      \<and> fg_dir st = map (\<lambda>i. (int i, A (source_fast N i))) [0..<length fs]
      \<and> outline_dir st = map (\<lambda>i. (int i, B (source_fast N i))) [0..<length fs]
      \<and> shadow_dir st = map (\<lambda>i. (int i, C (source_fast N i))) [0..<length fs]"
  using ok
proof (induction fs rule: rev_induct)
  case Nil
  show ?case by (simp add: fast_init_def)
next
  case (snoc f xs)
  let ?n = "length xs"
  have okxs: "\<And>i. i < length xs \<Longrightarrow> sampled_fast N i \<Longrightarrow>
               fresh_streams bp op h w s (remove (xs ! i)) = Inr (A i, B i, C i)"
    using snoc.prems by (metis length_append_singleton less_Suc_eq nth_append)
  from snoc.IH [OF okxs] obtain st where
    run: "fast_loop bp op remove h w s (int N) xs fast_init = (None, st)"
    and fi: "frame_idx st = int ?n"
    and la: "last_fg st = (if xs = [] then None else Some (A (source_fast N (?n - 1))))"
    and lb: "last_outline_rgba st = (if xs = [] then None else Some (B (source_fast N (?n - 1))))"
    and lc: "last_shadow st = (if xs = [] then None else Some (C (source_fast N (?n - 1))))"
    and pc: "processed st = int (length (filter (sampled_fast N) [0..<?n]))"
    and sg: "segmented_fast st = map ((!) xs) (filter (sampled_fast N) [0..<?n])"
    and da: "fg_dir st = map (\<lambda>i. (int i, A (source_fast N i))) [0..<?n]"
    and db: "outline_dir st = map (\<lambda>i. (int i, B (source_fast N i))) [0..<?n]"
    and dc: "shadow_dir st = map (\<lambda>i. (int i, C (source_fast N i))) [0..<?n]"
    by blast
  have app: "fast_loop bp op remove h w s (int N) (xs @ [f]) fast_init
               = fast_loop bp op remove h w s (int N) [f] st"
    by (simp add: fast_loop_append run)
  have N0: "int N \<noteq> 0" using N by simp
  have seg: "map ((!) (xs @ [f])) (filter (sampled_fast N) [0..<?n])
               = map ((!) xs) (filter (sampled_fast N) [0..<?n])"
    by (rule map_cong) (auto simp: nth_append)
  show ?case
  proof (cases "sampled_fast N ?n")
    case True
    have test: "frame_idx st mod int N = 0"
      using True sampled_fast_test [of ?n N] by (simp add: fi)
    have okn: "fresh_streams bp op h w s (remove f) = Inr (A ?n, B ?n, C ?n)"
      using snoc.prems [of ?n] True by simp
    from fast_last_fresh [where remove = remove and f = f, OF N0 test okn] obtain st' where
      st': "fast_loop bp op remove h w s (int N) [f] st = (None, st')"
        "frame_idx st' = frame_idx st + 1"
        "last_fg st' = Some (A ?n)" "last_outline_rgba st' = Some (B ?n)"
        "last_shadow st' = Some (C ?n)"
        "processed st' = processed st + 1"
        "segmented_fast st' = segmented_fast st @ [f]"
        "fg_dir st' = fg_dir st @ [(frame_idx st, A ?n)]"
        "outline_dir st' = outline_dir st @ [(frame_idx st, B ?n)]"
        "shadow_dir st' = shadow_dir st @ [(frame_idx st, C ?n)]"
      by blast
    have src: "source_fast N ?n = ?n" by (rule source_fast_sampled [OF True])
    show ?thesis
      using True by (simp add: app st' fi pc sg da db dc seg src del: fast_loop.simps)
  next
    case False
    then have nz: "frame_idx st mod int N \<noteq> 0"
      using sampled_fast_test [of ?n N] by (simp add: fi)
    from False have pos: "xs \<noteq> []" by (auto simp: sampled_fast_def)
    then obtain m where m: "?n = Suc m" by (cases xs) auto
    have src: "source_fast N ?n = source_fast N (?n - 1)"
      using source_fast_hold [of N m] False m by simp
    let ?j = "source_fast N (?n - 1)"
    have l: "last_fg st = Some (A ?j)" "last_outline_rgba st = Some (B ?j)"
            "last_shadow st = Some (C ?j)"
      using pos by (simp_all add: la lb lc)
    from fast_last_hold [where remove = remove and f = f and bp = bp and op = op and s = s and h = h and w = w, OF N0 nz l] obtain st' where
      st': "fast_loop bp op remove h w s (int N) [f] st = (None, st')"
        "frame_idx st' = frame_idx st + 1"
        "last_fg st' = Some (A ?j)" "last_outline_rgba st' = Some (B ?j)"
        "last_shadow st' = Some (C ?j)"
        "processed st' = processed st"
        "segmented_fast st' = segmented_fast st"
        "fg_dir st' = fg_dir st @ [(frame_idx st, A ?j)]"
        "outline_dir st' = outline_dir st @ [(frame_idx st, B ?j)]"
        "shadow_dir st' = shadow_dir st @ [(frame_idx st, C ?j)]"
      by blast
    show ?thesis
      using False by (simp add: app st' fi pc sg da db dc seg src del: fast_loop.simps)
  qed
qed

section \<open>Shapes of the stylized results\<close>

lemma offset_shadow_shape:
  assumes "has_shape h w S" "0 < h" "offset_shadow S ox oy = Inr r"
  shows "has_shape h w r"
proof -
  have hw: "height S = h" "width S = w"
    using assms(1,2) by (simp_all add: has_shape_height has_shape_width)
  show ?thesis
    using assms(3)
    by (auto simp: offset_shadow_def Let_def hw has_shape_table has_shape_full split: if_splits)
qed

lemma offset_shadow_ok:
  assumes S: "has_shape h w S" and h: "0 < h" and ox: "0 \<le> ox" and oy: "0 \<le> oy"
    and fy: "oy \<le> int h \<or> 2 * int h \<le> oy" and fx: "ox \<le> int w \<or> 2 * int w \<le> ox"
  shows "\<exists>r. offset_shadow S ox oy = Inr r"
proof -
  have hw: "height S = h" "width S = w"
    using S h by (simp_all add: has_shape_height has_shape_width)
  have y: "py_index h (int h - oy) = h - py_index h oy"
    using oy fy by (auto simp: py_index_def)
  have x: "py_index w (int w - ox) = w - py_index w ox"
    using ox fx by (auto simp: py_index_def)
  show ?thesis
    using ox oy by (simp add: offset_shadow_def Let_def hw x y)
qed

lemma create_shadow_shape:
  assumes "has_shape h w alpha" "0 < h" "create_shadow bp op alpha ox oy blur = Inr r"
  shows "has_shape h w r"
proof -
  let ?D = "dilate (threshold alpha 100 255) (ellipse 5)"
  have D: "has_shape h w ?D" by (simp add: has_shape_dilate has_shape_threshold assms(1))
  from assms(3) obtain b where b: "GaussianBlur bp ?D (blur OR 1) = Inr b"
    and r: "offset_shadow (map (map op) b) ox oy = Inr r"
    by (auto simp: create_shadow_def Let_def getStructuringElement_pos split: sum.splits)
  have "has_shape h w (map (map op) b)"
    by (rule has_shape_map [OF GaussianBlur_shape [OF D b]])
  from offset_shadow_shape [OF this assms(2) r] show ?thesis .
qed

lemma create_shadow_ok:
  assumes "has_shape h w alpha" "0 < h" "0 \<le> blur" "0 \<le> ox" "0 \<le> oy"
    and "oy \<le> int h \<or> 2 * int h \<le> oy" "ox \<le> int w \<or> 2 * int w \<le> ox"
  shows "\<exists>r. create_shadow bp op alpha ox oy blur = Inr r \<and> has_shape h w r"
proof -
  from create_shadow_unfold [OF assms(1,3)] obtain S where
    S: "has_shape h w S" "create_shadow bp op alpha ox oy blur = offset_shadow S ox oy" by blast
  from offset_shadow_ok [OF S(1) assms(2,4,5,6,7)] obtain r where
    r: "offset_shadow S ox oy = Inr r" by blast
  with S(2) have c: "create_shadow bp op alpha ox oy blur = Inr r" by simp
  from create_shadow_shape [OF assms(1,2) c] c show ?thesis by blast
qed



lemma outline_frame_ok:
  assumes "has_shape h w (remove f)" "0 < h" "0 \<le> s"
  shows "\<exists>ol img. create_outline_from_mask bp (remove f) s = Inr ol \<and> has_shape h w ol
           \<and> flat_frame 255 h w ol = Inr img
           \<and> outline_frame bp remove h w s f = Inr img \<and> has_shape h w img"
proof -
  from create_outline_from_mask_ok [OF assms(1,3), of bp] obtain ol where
    ol: "create_outline_from_mask bp (remove f) s = Inr ol" "has_shape h w ol" by blast
  have ff: "flat_frame 255 h w ol = Inr (map (map (\<lambda>v. (255, 255, 255, v))) ol)"
    by (rule flat_frame_same [OF ol(2) assms(2)])
  have "outline_frame bp remove h w s f = Inr (map (map (\<lambda>v. (255, 255, 255, v))) ol)"
    by (simp add: outline_frame_def ol(1) ff)
  with ol ff flat_frame_shape [OF ff] show ?thesis by blast
qed



lemma fresh_streams_ok:
  assumes d: "has_shape h w data" and h: "0 < h" and s: "1 \<le> s"
    and fy: "12 \<le> h \<or> h \<le> 6" and fx: "10 \<le> w \<or> w \<le> 5"
  shows "\<exists>r. fresh_streams bp op h w s (Array3 4 data) = Inr r"
proof -
  let ?a0 = "map (map (\<lambda>p. p ! 3)) data"
  let ?f0 = "map (map (\<lambda>p. (p ! 2, p ! 1, p ! 0, p ! 3))) data"
  have af: "alpha_and_foreground h w (Array3 4 data) = Inr (?a0, ?f0)"
    by (simp add: alpha_and_foreground_def)
  have a0: "has_shape h w ?a0" and f0: "has_shape h w ?f0"
    by (simp_all add: has_shape_map d)
  from GaussianBlur_ok [OF a0, of 3 bp] obtain alpha where
    gb: "GaussianBlur bp ?a0 3 = Inr alpha" and al: "has_shape h w alpha" by auto
  from set_alpha_same_shape [OF f0 al h] obtain fg where sf: "set_alpha ?f0 alpha = Inr fg"
    by blast
  from create_outline_ok [OF al s, of bp] obtain oa where
    co: "create_outline bp alpha s = Inr oa" and oas: "has_shape h w oa" by blast
  from flat_frame_same [OF oas h] obtain ol where fo: "flat_frame 255 h w oa = Inr ol"
    by blast
  have "\<exists>r. create_shadow bp op alpha 10 12 25 = Inr r \<and> has_shape h w r"
    using fy fx by (intro create_shadow_ok [OF al h]) auto
  then obtain sa where cs: "create_shadow bp op alpha 10 12 25 = Inr sa"
    and sas: "has_shape h w sa" by blast
  from flat_frame_same [OF sas h] obtain sh where fs: "flat_frame 0 h w sa = Inr sh"
    by blast
  show ?thesis
    using af gb sf co fo cs fs by (simp add: fresh_streams_def)
qed

section \<open>Stylizer: the outline at stroke size 1\<close>

lemma threshold_nth:
  assumes "has_shape h w m" "y < h" "x < w"
  shows "threshold m t v ! y ! x = threshold_px t v (m ! y ! x)"
  unfolding threshold_def by (rule map_nth2 [OF assms])

lemma threshold_binary:
  assumes "has_shape h w m" "y < h" "x < w"
  shows "threshold m t 255 ! y ! x = 0 \<or> threshold m t 255 ! y ! x = 255"
  by (simp add: threshold_nth [OF assms] threshold_px_def)

lemma fold_max_init: "(a :: uint8) \<le> fold max vs a"
proof (induction vs arbitrary: a)
  case Nil
  show ?case by simp
next
  case (Cons u vs)
  have "a \<le> max u a" by simp
  also have "\<dots> \<le> fold max vs (max u a)" by (rule Cons.IH)
  finally show ?case by simp
qed

lemma fold_max_ge: "v \<in> set vs \<Longrightarrow> (v :: uint8) \<le> fold max vs a"
proof (induction vs arbitrary: a)
  case Nil
  then show ?case by simp
next
  case (Cons u vs)
  show ?case
  proof (cases "v = u")
    case True
    have "v \<le> max u a" using True by simp
    also have "\<dots> \<le> fold max vs (max u a)" by (rule fold_max_init)
    finally show ?thesis by simp
  next
    case False
    with Cons.prems have "v \<in> set vs" by simp
    from Cons.IH [OF this] show ?thesis by simp
  qed
qed

lemma dilate_ge:
  assumes "has_shape h w src" "y < h" "x < w" "(dy, dx) \<in> set (kernel_offsets K)"
  shows "pixel_at 0 src (int y + dy) (int x + dx) \<le> dilate src K ! y ! x"
proof -
  have "pixel_at 0 src (int y + dy) (int x + dx)
          \<in> set (map (\<lambda>(dy, dx). pixel_at 0 src (int y + dy) (int x + dx)) (kernel_offsets K))"
    using assms(4) by force
  from fold_max_ge [OF this] show ?thesis
    by (simp add: dilate_nth [OF assms(1-3)])
qed

lemma kernel_offsets_4:
  "kernel_offsets (ellipse 4)
     = [(-2, 0), (-1, -2), (-1, -1), (-1, 0), (-1, 1), (0, -2), (0, -1), (0, 0), (0, 1),
        (1, -2), (1, -1), (1, 0), (1, 1)]"
  by code_simp

lemma uint8_255_top: "255 \<le> (v :: uint8) \<Longrightarrow> v = 255"
  using uint8_le_255 [of v] by simp

lemma dilate_4_below_right:
  assumes B: "has_shape h w src" and yx: "y < h" "x < w"
    and nb: "(y + 1 < h \<and> src ! (y + 1) ! x = 255) \<or> (x + 1 < w \<and> src ! y ! (x + 1) = 255)"
  shows "dilate src (ellipse 4) ! y ! x = 255"
proof -
  from nb show ?thesis
  proof
    assume a: "y + 1 < h \<and> src ! (y + 1) ! x = 255"
    have "pixel_at 0 src (int (y + 1)) (int x) = 255"
      using a pixel_at_inside [OF B, of "y + 1" x 0] yx by simp
    moreover have "pixel_at 0 src (int y + 1) (int x + 0) \<le> dilate src (ellipse 4) ! y ! x"
      by (rule dilate_ge [OF B yx]) (simp add: kernel_offsets_4)
    ultimately show ?thesis by (simp add: uint8_255_top add.commute)
  next
    assume a: "x + 1 < w \<and> src ! y ! (x + 1) = 255"
    have "pixel_at 0 src (int y) (int (x + 1)) = 255"
      using a pixel_at_inside [OF B, of y "x + 1" 0] yx by simp
    moreover have "pixel_at 0 src (int y + 0) (int x + 1) \<le> dilate src (ellipse 4) ! y ! x"
      by (rule dilate_ge [OF B yx]) (simp add: kernel_offsets_4)
    ultimately show ?thesis by (simp add: uint8_255_top add.commute)
  qed
qed

lemma GaussianBlur_nth:
  assumes "has_shape h w src" "y < h" "x < w" "1 < k" "odd k" "GaussianBlur bp src k = Inr b"
  shows "b ! y ! x = bp (nat k) src y x"
proof -
  have hw: "height src = h" "width src = w"
    using assms(1,2) by (simp_all add: has_shape_height has_shape_width)
  from assms(4,5,6) have "b = map (\<lambda>y. map (\<lambda>x. bp (nat k) src y x) [0..<w]) [0..<h]"
    by (auto simp: GaussianBlur_def hw split: if_splits)
  then show ?thesis using assms(2,3) by simp
qed

lemma scale_px_nonzero:
  assumes "2 \<le> (v :: uint8)"
  shows "scale_px 3 5 v \<noteq> 0"
proof -
  have lo: "2 \<le> unat v" using assms by (simp add: word_le_nat_alt)
  have hi: "unat v \<le> 255" using uint8_le_255 [of v] by (simp add: word_le_nat_alt)
  have "1 \<le> 3 * unat v div 5" "3 * unat v div 5 < 256" using lo hi by linarith+
  then have "unat (of_nat (3 * unat v div 5) :: uint8) = 3 * unat v div 5"
    by (simp add: unat_of_nat)
  with \<open>1 \<le> 3 * unat v div 5\<close> have "unat (scale_px 3 5 v) \<noteq> 0"
    by (simp add: scale_px_def)
  then show ?thesis by auto
qed

lemma add_px_nonzero:
  assumes "a \<noteq> 0"
  shows "add_px a b \<noteq> 0"
proof (cases "255 < unat a + unat b")
  case True
  then show ?thesis by (simp add: add_px_def)
next
  case False
  have pos: "0 < unat a" using assms by (simp add: unat_gt_0)
  from False have lt: "unat a + unat b < 2 ^ LENGTH(8)" by simp
  have "unat (a + b) = unat a + unat b" by (rule unat_add_lem [THEN iffD1, OF lt])
  with pos have "unat (a + b) \<noteq> 0" by simp
  then have "a + b \<noteq> 0" by auto
  with False show ?thesis by (simp add: add_px_def)
qed

lemma add_px_zero_right: "add_px v 0 = v"
proof -
  have "unat v \<le> 255" using uint8_le_255 [of v] by (simp add: word_le_nat_alt)
  then show ?thesis by (simp add: add_px_def)
qed

lemma add_nth:
  assumes "has_shape h w a" "has_shape h w b" "y < h" "x < w"
  shows "add a b ! y ! x = add_px (a ! y ! x) (b ! y ! x)"
  unfolding add_def by (rule map2_nth2 [OF assms])

lemma subtract_nth:
  assumes "has_shape h w a" "has_shape h w b" "y < h" "x < w"
  shows "subtract a b ! y ! x = subtract_px (a ! y ! x) (b ! y ! x)"
  unfolding subtract_def by (rule map2_nth2 [OF assms])

lemma scale_nth:
  assumes "has_shape h w a" "y < h" "x < w"
  shows "scale n d a ! y ! x = scale_px n d (a ! y ! x)"
  unfolding scale_def by (rule map_nth2 [OF assms])

lemma stroke_one_glow_pixel:
  assumes m: "has_shape h w m" and yx: "y < h" "x < w"
    and blur: "\<And>src y x. has_shape h w src \<Longrightarrow> y < h \<Longrightarrow> x < w \<Longrightarrow> src ! y ! x = 255
                 \<Longrightarrow> 2 \<le> bp 5 src y x"
    and bg: "threshold m 127 255 ! y ! x = 0"
    and nb: "(y + 1 < h \<and> threshold m 127 255 ! (y + 1) ! x = 255)
             \<or> (x + 1 < w \<and> threshold m 127 255 ! y ! (x + 1) = 255)"
  shows "\<exists>out. create_outline_from_mask bp m 1 = Inr out \<and> out ! y ! x \<noteq> 0"
proof -
  let ?B = "threshold m 127 255"
  let ?G = "subtract (dilate ?B (ellipse 4)) ?B"
  let ?I = "subtract (dilate ?B (ellipse 2)) ?B"
  have B: "has_shape h w ?B" by (simp add: has_shape_threshold m)
  have G: "has_shape h w ?G" by (simp add: has_shape_subtract has_shape_dilate B)
  have I: "has_shape h w ?I" by (simp add: has_shape_subtract has_shape_dilate B)
  from create_outline_from_mask_unfold [OF m, of 1 bp] obtain b where
    sb: "has_shape h w b"
    and gb: "GaussianBlur bp ?G 5 = Inr b"
    and out: "create_outline_from_mask bp m 1 = Inr (add (scale 3 5 b) ?I)"
    by auto
  have d: "dilate ?B (ellipse 4) ! y ! x = 255"
    by (rule dilate_4_below_right [OF B yx nb])
  have g: "?G ! y ! x = 255"
    by (simp add: subtract_nth [OF has_shape_dilate [OF B] B yx] d bg subtract_px_zero)
  have "b ! y ! x = bp (nat 5) ?G y x"
    by (rule GaussianBlur_nth [OF G yx _ _ gb]) simp_all
  then have "2 \<le> b ! y ! x" using blur [OF G yx g] by simp
  then have "scale_px 3 5 (b ! y ! x) \<noteq> 0" by (rule scale_px_nonzero)
  then have "add_px (scale_px 3 5 (b ! y ! x)) (?I ! y ! x) \<noteq> 0" by (rule add_px_nonzero)
  then have "add (scale 3 5 b) ?I ! y ! x \<noteq> 0"
    by (simp add: add_nth [OF has_shape_scale [OF sb] I yx] scale_nth [OF sb yx])
  with out show ?thesis by simp
qed

section \<open>Stylizer: a mask with subject and background has an outline at stroke size 1\<close>

lemma flip_up:
  "g a \<Longrightarrow> \<not> g b \<Longrightarrow> a < b \<Longrightarrow> \<exists>i. a \<le> i \<and> i < b \<and> g i \<and> \<not> g (Suc i)"
proof (induction b)
  case 0
  then show ?case by simp
next
  case (Suc b)
  show ?case
  proof (cases "g b")
    case True
    with Suc.prems show ?thesis by (intro exI [of _ b]) simp
  next
    case False
    with Suc.prems have "a < b" by (cases "a = b") auto
    from Suc.IH [OF Suc.prems(1) False this] show ?thesis by auto
  qed
qed

lemma flip_down:
  "\<not> g a \<Longrightarrow> g b \<Longrightarrow> a < b \<Longrightarrow> \<exists>i. a \<le> i \<and> i < b \<and> \<not> g i \<and> g (Suc i)"
  using flip_up [of "\<lambda>i. \<not> g i" a b] by simp

text \<open>
  A grid with a pixel inside and a pixel outside a set has a pixel outside it with
  a direct neighbour inside it: above or to the left, or below or to the right.
\<close>

lemma edge_exists:
  assumes s: "P y1 x1" "y1 < h" "x1 < w" and b: "\<not> P y2 x2" "y2 < h" "x2 < (w :: nat)"
  shows "\<exists>y x. y < (h :: nat) \<and> x < w \<and> \<not> P y x
           \<and> ((0 < y \<and> P (y - 1) x) \<or> (0 < x \<and> P y (x - 1))
               \<or> (y + 1 < h \<and> P (y + 1) x) \<or> (x + 1 < w \<and> P y (x + 1)))"
proof (cases "P y1 x2")
  case True
  then have ne: "y1 \<noteq> y2" using b(1) by auto
  show ?thesis
  proof (cases "y1 < y2")
    case True
    from flip_up [of "\<lambda>y. P y x2" y1 y2, OF \<open>P y1 x2\<close> b(1) True] obtain i where
      i: "y1 \<le> i" "i < y2" "P i x2" "\<not> P (Suc i) x2" by blast
    have "Suc i < h" using i(2) b(2) by simp
    with i b(3) show ?thesis by (intro exI [of _ "Suc i"] exI [of _ x2]) simp
  next
    case False
    with ne have lt: "y2 < y1" by simp
    from flip_down [of "\<lambda>y. P y x2" y2 y1, OF b(1) \<open>P y1 x2\<close> lt] obtain i where
      i: "y2 \<le> i" "i < y1" "\<not> P i x2" "P (Suc i) x2" by blast
    have "i < h" "i + 1 < h" using i(2) s(2) by simp_all
    with i b(3) show ?thesis by (intro exI [of _ i] exI [of _ x2]) simp
  qed
next
  case False
  then have ne: "x1 \<noteq> x2" using s(1) by auto
  show ?thesis
  proof (cases "x1 < x2")
    case True
    from flip_up [of "\<lambda>x. P y1 x" x1 x2, OF s(1) False True] obtain i where
      i: "x1 \<le> i" "i < x2" "P y1 i" "\<not> P y1 (Suc i)" by blast
    have "Suc i < w" using i(2) b(3) by simp
    with i s(2) show ?thesis by (intro exI [of _ y1] exI [of _ "Suc i"]) simp
  next
    case nlt: False
    with ne have lt: "x2 < x1" by simp
    from flip_down [of "\<lambda>x. P y1 x" x2 x1, OF False s(1) lt] obtain i where
      i: "x2 \<le> i" "i < x1" "\<not> P y1 i" "P y1 (Suc i)" by blast
    have "i < w" "i + 1 < w" using i(2) s(3) by simp_all
    with i s(2) show ?thesis by (intro exI [of _ y1] exI [of _ i]) simp
  qed
qed

lemma stroke_one_edge_pixel:
  assumes m: "has_shape h w m" and yx: "y < h" "x < w"
    and blur: "\<And>src y x. has_shape h w src \<Longrightarrow> y < h \<Longrightarrow> x < w \<Longrightarrow> src ! y ! x = 255
                 \<Longrightarrow> 2 \<le> bp 5 src y x"
    and bg: "threshold m 127 255 ! y ! x = 0"
    and nb: "(0 < y \<and> threshold m 127 255 ! (y - 1) ! x = 255)
             \<or> (0 < x \<and> threshold m 127 255 ! y ! (x - 1) = 255)
             \<or> (y + 1 < h \<and> threshold m 127 255 ! (y + 1) ! x = 255)
             \<or> (x + 1 < w \<and> threshold m 127 255 ! y ! (x + 1) = 255)"
  shows "\<exists>out. create_outline_from_mask bp m 1 = Inr out \<and> out ! y ! x \<noteq> 0"
proof -
  consider
    (ul) "(0 < y \<and> threshold m 127 255 ! (y - 1) ! x = 255)
          \<or> (0 < x \<and> threshold m 127 255 ! y ! (x - 1) = 255)"
  | (br) "(y + 1 < h \<and> threshold m 127 255 ! (y + 1) ! x = 255)
          \<or> (x + 1 < w \<and> threshold m 127 255 ! y ! (x + 1) = 255)"
    using nb by blast
  then show ?thesis
  proof cases
    case ul
    from stroke_one_pixel [OF m yx bg ul, of bp] show ?thesis by auto
  next
    case br
    from stroke_one_glow_pixel [where bp = bp, OF m yx blur bg br] show ?thesis by blast
  qed
qed

lemma stroke_one_nonempty:
  assumes m: "has_shape h w m"
    and blur: "\<And>src y x. has_shape h w src \<Longrightarrow> y < h \<Longrightarrow> x < w \<Longrightarrow> src ! y ! x = 255
                 \<Longrightarrow> 2 \<le> bp 5 src y x"
    and subject: "y1 < h" "x1 < w" "threshold m 127 255 ! y1 ! x1 = 255"
    and background: "y2 < h" "x2 < w" "threshold m 127 255 ! y2 ! x2 = 0"
  shows "\<exists>out y x. create_outline_from_mask bp m 1 = Inr out \<and> y < h \<and> x < w \<and> out ! y ! x \<noteq> 0"
proof -
  let ?B = "threshold m 127 255"
  let ?P = "\<lambda>y x. ?B ! y ! x = 255"
  have "\<not> ?P y2 x2" using background(3) by simp
  from edge_exists [of ?P, OF subject(3,1,2) this background(1,2)] obtain y x where
    yx: "y < h" "x < w" and np: "?B ! y ! x \<noteq> 255"
    and nb: "(0 < y \<and> ?B ! (y - 1) ! x = 255) \<or> (0 < x \<and> ?B ! y ! (x - 1) = 255)
               \<or> (y + 1 < h \<and> ?B ! (y + 1) ! x = 255) \<or> (x + 1 < w \<and> ?B ! y ! (x + 1) = 255)"
    by blast
  have bg: "?B ! y ! x = 0" using threshold_binary [OF m yx, of 127] np by blast
  from stroke_one_edge_pixel [where bp = bp, OF m yx blur bg nb] yx show ?thesis by blast
qed

section \<open>Stylizer: binary images and the one-pixel rim\<close>

lemma max_binary:
  "(u :: uint8) = 0 \<or> u = 255 \<Longrightarrow> a = 0 \<or> a = 255 \<Longrightarrow> max u a = 0 \<or> max u a = 255"
  by (auto simp: max_def)

lemma min_binary:
  "(u :: uint8) = 0 \<or> u = 255 \<Longrightarrow> a = 0 \<or> a = 255 \<Longrightarrow> min u a = 0 \<or> min u a = 255"
  by (auto simp: min_def)

lemma fold_max_binary:
  assumes "\<And>v. v \<in> set vs \<Longrightarrow> v = 0 \<or> v = 255" "a = 0 \<or> a = 255"
  shows "fold max vs a = 0 \<or> fold max vs a = (255 :: uint8)"
  using assms
proof (induction vs arbitrary: a)
  case Nil
  then show ?case by simp
next
  case (Cons u vs)
  have u: "u = 0 \<or> u = 255" using Cons.prems(1) by simp
  have "fold max vs (max u a) = 0 \<or> fold max vs (max u a) = 255"
    by (rule Cons.IH) (use Cons.prems max_binary [OF u Cons.prems(2)] in auto)
  then show ?case by simp
qed

lemma fold_min_binary:
  assumes "\<And>v. v \<in> set vs \<Longrightarrow> v = 0 \<or> v = 255" "a = 0 \<or> a = 255"
  shows "fold min vs a = 0 \<or> fold min vs a = (255 :: uint8)"
  using assms
proof (induction vs arbitrary: a)
  case Nil
  then show ?case by simp
next
  case (Cons u vs)
  have u: "u = 0 \<or> u = 255" using Cons.prems(1) by simp
  have "fold min vs (min u a) = 0 \<or> fold min vs (min u a) = 255"
    by (rule Cons.IH) (use Cons.prems min_binary [OF u Cons.prems(2)] in auto)
  then show ?case by simp
qed

lemma pixel_at_binary:
  assumes S: "has_shape h w src"
    and bin: "\<And>y x. y < h \<Longrightarrow> x < w \<Longrightarrow> src ! y ! x = 0 \<or> src ! y ! x = 255"
    and border: "border = 0 \<or> border = 255"
  shows "pixel_at border src y x = 0 \<or> pixel_at border src y x = 255"
proof (cases "0 \<le> y \<and> y < int (height src) \<and> 0 \<le> x \<and> x < int (width src)")
  case True
  have hh: "height src = h" by (rule has_shape_height [OF S])
  with True have "0 < h" by auto
  then have ww: "width src = w" by (rule has_shape_width [OF S])
  have "nat y < h" "nat x < w" using True hh ww by auto
  from bin [OF this] True show ?thesis by (simp add: pixel_at_def)
next
  case False
  then show ?thesis using border by (auto simp: pixel_at_def)
qed

lemma dilate_binary:
  assumes S: "has_shape h w src"
    and bin: "\<And>y x. y < h \<Longrightarrow> x < w \<Longrightarrow> src ! y ! x = 0 \<or> src ! y ! x = 255"
    and yx: "y < h" "x < w"
  shows "dilate src K ! y ! x = 0 \<or> dilate src K ! y ! x = 255"
proof -
  let ?vs = "map (\<lambda>(dy, dx). pixel_at 0 src (int y + dy) (int x + dx)) (kernel_offsets K)"
  have el: "\<And>v. v \<in> set ?vs \<Longrightarrow> v = 0 \<or> v = 255"
  proof -
    fix v
    assume "v \<in> set (map (\<lambda>(dy, dx). pixel_at 0 src (int y + dy) (int x + dx)) (kernel_offsets K))"
    then obtain dy dx where "v = pixel_at 0 src (int y + dy) (int x + dx)" by auto
    then show "v = 0 \<or> v = 255"
      using pixel_at_binary [where border = 0, OF S bin] by simp
  qed
  have "fold max ?vs 0 = 0 \<or> fold max ?vs 0 = 255"
    by (rule fold_max_binary [of ?vs 0], rule el, assumption, simp)
  then show ?thesis by (simp add: dilate_nth [OF S yx])
qed

lemma erode_binary:
  assumes S: "has_shape h w src"
    and bin: "\<And>y x. y < h \<Longrightarrow> x < w \<Longrightarrow> src ! y ! x = 0 \<or> src ! y ! x = 255"
    and yx: "y < h" "x < w"
  shows "erode src K ! y ! x = 0 \<or> erode src K ! y ! x = 255"
proof -
  let ?vs = "map (\<lambda>(dy, dx). pixel_at 255 src (int y + dy) (int x + dx)) (kernel_offsets K)"
  have el: "\<And>v. v \<in> set ?vs \<Longrightarrow> v = 0 \<or> v = 255"
  proof -
    fix v
    assume "v \<in> set (map (\<lambda>(dy, dx). pixel_at 255 src (int y + dy) (int x + dx)) (kernel_offsets K))"
    then obtain dy dx where "v = pixel_at 255 src (int y + dy) (int x + dx)" by auto
    then show "v = 0 \<or> v = 255"
      using pixel_at_binary [where border = 255, OF S bin] by simp
  qed
  have "fold min ?vs 255 = 0 \<or> fold min ?vs 255 = 255"
    by (rule fold_min_binary [of ?vs 255], rule el, assumption, simp)
  then show ?thesis by (simp add: erode_nth [OF S yx])
qed

lemma clean_binary_binary:
  assumes a: "has_shape h w a" and yx: "y < h" "x < w"
  shows "clean_binary a ! y ! x = 0 \<or> clean_binary a ! y ! x = 255"
proof -
  let ?B = "threshold a 127 255"
  have B: "has_shape h w ?B" by (rule has_shape_threshold [OF a])
  have D: "has_shape h w (dilate ?B (ellipse 3))" by (rule has_shape_dilate [OF B])
  have "erode (dilate ?B (ellipse 3)) (ellipse 3) ! y ! x = 0
        \<or> erode (dilate ?B (ellipse 3)) (ellipse 3) ! y ! x = 255"
    by (rule erode_binary [OF D _ yx], rule dilate_binary [OF B]) (rule threshold_binary [OF a])
  then show ?thesis by (simp add: clean_binary_def morph_close_def)
qed

text \<open>
  The rim that the 2 x 2 element adds to a binary image: the pixels outside the
  subject that have a subject pixel directly above or directly to the left.
\<close>

lemma rim_2:
  assumes S: "has_shape h w src"
    and bin: "\<And>y x. y < h \<Longrightarrow> x < w \<Longrightarrow> src ! y ! x = 0 \<or> src ! y ! x = 255"
    and yx: "y < h" "x < w"
  shows "subtract (dilate src (ellipse 2)) src ! y ! x
           = (if src ! y ! x = 0
                 \<and> ((0 < y \<and> src ! (y - 1) ! x = 255) \<or> (0 < x \<and> src ! y ! (x - 1) = 255))
              then 255 else 0)"
proof -
  have c: "src ! y ! x = 0 \<or> src ! y ! x = 255" by (rule bin [OF yx])
  have l: "0 < x \<Longrightarrow> src ! y ! (x - 1) = 0 \<or> src ! y ! (x - 1) = 255"
    using bin [OF yx(1), of "x - 1"] yx(2) by simp
  have u: "0 < y \<Longrightarrow> src ! (y - 1) ! x = 0 \<or> src ! (y - 1) ! x = 255"
    using bin [OF _ yx(2), of "y - 1"] yx(1) by simp
  show ?thesis
    using c l u
    by (auto simp: subtract_nth [OF has_shape_dilate [OF S] S yx] dilate_2_nth [OF S yx]
          subtract_px_def)
qed

lemma inner_stroke_one:
  assumes m: "has_shape h w m" and yx: "y < h" "x < w"
  shows "\<exists>inner. inner_outline_from_mask m 1 = Inr inner
           \<and> inner ! y ! x
               = (if threshold m 127 255 ! y ! x = 0
                     \<and> ((0 < y \<and> threshold m 127 255 ! (y - 1) ! x = 255)
                        \<or> (0 < x \<and> threshold m 127 255 ! y ! (x - 1) = 255))
                  then 255 else 0)"
proof -
  let ?B = "threshold m 127 255"
  have B: "has_shape h w ?B" by (rule has_shape_threshold [OF m])
  have "inner_outline_from_mask m 1 = Inr (subtract (dilate ?B (ellipse 2)) ?B)"
    by (simp add: inner_outline_from_mask_def getStructuringElement_pos Let_def)
  with rim_2 [OF B threshold_binary [OF m] yx] show ?thesis by simp
qed

lemma add_zero_image:
  assumes "has_shape h w a"
  shows "add a (full h w 0) = a"
proof (rule image_eqI2 [OF has_shape_add [OF assms has_shape_full] assms])
  fix y x assume "y < h" "x < w"
  then show "add a (full h w 0) ! y ! x = a ! y ! x"
    by (simp add: add_nth [OF assms has_shape_full] full_nth add_px_zero_right)
qed

lemma create_outline_one:
  assumes a: "has_shape h w a"
  shows "create_outline bp a 1
           = Inr (scale 1 2 (subtract (dilate (clean_binary a) (ellipse 2)) (clean_binary a)))"
proof -
  let ?C = "clean_binary a"
  let ?X = "subtract (dilate ?C (ellipse 2)) ?C"
  have C: "has_shape h w ?C" by (rule has_shape_clean_binary [OF a])
  have X: "has_shape h w ?X" by (simp add: has_shape_subtract has_shape_dilate C)
  have d1: "dilate ?C (ellipse (Suc 0)) = ?C" by (rule dilate_unit [OF C])
  have inner: "inner_of_outline a 1 = Inr (full h w 0)"
    by (simp add: inner_of_outline_def getStructuringElement_pos Let_def d1 subtract_self [OF C])
  have outer: "outer_of_outline a 1 = Inr ?X"
    by (simp add: outer_of_outline_def getStructuringElement_pos Let_def d1)
  have blur: "GaussianBlur bp ?X 1 = Inr ?X"
    by (simp add: GaussianBlur_def)
  show ?thesis
    by (simp add: create_outline_def inner outer blur clip_id
          add_zero_image [OF has_shape_scale [OF X]])
qed

lemma create_outline_one_pixel:
  assumes a: "has_shape h w a" and yx: "y < h" "x < w"
  shows "\<exists>out. create_outline bp a 1 = Inr out
           \<and> out ! y ! x
               = (if clean_binary a ! y ! x = 0
                     \<and> ((0 < y \<and> clean_binary a ! (y - 1) ! x = 255)
                        \<or> (0 < x \<and> clean_binary a ! y ! (x - 1) = 255))
                  then 127 else 0)"
proof -
  let ?C = "clean_binary a"
  let ?X = "subtract (dilate ?C (ellipse 2)) ?C"
  have C: "has_shape h w ?C" by (rule has_shape_clean_binary [OF a])
  have X: "has_shape h w ?X" by (simp add: has_shape_subtract has_shape_dilate C)
  have "scale 1 2 ?X ! y ! x
          = (if ?C ! y ! x = 0
                \<and> ((0 < y \<and> ?C ! (y - 1) ! x = 255) \<or> (0 < x \<and> ?C ! y ! (x - 1) = 255))
             then 127 else 0)"
    by (simp add: scale_nth [OF X yx] rim_2 [OF C clean_binary_binary [OF a] yx] scale_px_def)
  with create_outline_one [OF a, of bp] show ?thesis by simp
qed

section \<open>Stylizer: the stroke size at its boundary, both scripts\<close>

text \<open>
  Claim C6, as amended. Stroke size 0 is checked nowhere: create-human-outline.py
  builds 1 x 1 elements and returns the all-zero outline without an error, and
  extract-foreground.py fails only because the library rejects the 0 x 0 element.

  With stroke size 1, create-human-outline.py returns an outline whose sharp inner
  stroke is one pixel wide: it is 255 exactly at the background pixels that have a
  subject pixel directly above or directly to the left, and the outline is 255
  there. Around it lies the attenuated glow: when the blur of size 5 leaves at least
  2 where its source is 255 (the library's kernel leaves its centre weight, about a
  seventh), the outline is not zero at any background pixel with a subject pixel
  directly above, below, left or right of it, and so the outline of a mask that has
  a subject pixel and a background pixel is never empty.

  With stroke size 1, extract-foreground.py has no inner stroke (its element is
  1 x 1) and its blur is the identity: the outline is 127 exactly at the background
  pixels of the cleaned mask that have a subject pixel directly above or directly to
  the left, and 0 everywhere else, so it is one pixel wide and it is empty when the
  subject touches background only on its upper and left sides.
\<close>

theorem stroke_boundary:
  assumes m: "has_shape h w m"
    and blur: "\<And>src y x. has_shape h w src \<Longrightarrow> y < h \<Longrightarrow> x < w \<Longrightarrow> src ! y ! x = 255
                 \<Longrightarrow> 2 \<le> bp 5 src y x"
  shows "create_outline_from_mask bp m 0 = Inr (full h w 0)
       \<and> create_outline bp m 0 = Inl CvError
       \<and> (\<exists>out. create_outline_from_mask bp m 1 = Inr out
             \<and> (\<forall>y<h. \<forall>x<w.
                   threshold m 127 255 ! y ! x = 0
                   \<and> ((0 < y \<and> threshold m 127 255 ! (y - 1) ! x = 255)
                      \<or> (0 < x \<and> threshold m 127 255 ! y ! (x - 1) = 255))
                   \<longrightarrow> out ! y ! x = 255)
             \<and> (\<forall>y<h. \<forall>x<w.
                   threshold m 127 255 ! y ! x = 0
                   \<and> ((0 < y \<and> threshold m 127 255 ! (y - 1) ! x = 255)
                      \<or> (0 < x \<and> threshold m 127 255 ! y ! (x - 1) = 255)
                      \<or> (y + 1 < h \<and> threshold m 127 255 ! (y + 1) ! x = 255)
                      \<or> (x + 1 < w \<and> threshold m 127 255 ! y ! (x + 1) = 255))
                   \<longrightarrow> out ! y ! x \<noteq> 0)
             \<and> ((\<exists>y<h. \<exists>x<w. threshold m 127 255 ! y ! x = 255)
                  \<and> (\<exists>y<h. \<exists>x<w. threshold m 127 255 ! y ! x = 0)
                \<longrightarrow> (\<exists>y<h. \<exists>x<w. out ! y ! x \<noteq> 0)))
       \<and> (\<exists>inner. inner_outline_from_mask m 1 = Inr inner
             \<and> (\<forall>y<h. \<forall>x<w.
                   inner ! y ! x
                     = (if threshold m 127 255 ! y ! x = 0
                           \<and> ((0 < y \<and> threshold m 127 255 ! (y - 1) ! x = 255)
                              \<or> (0 < x \<and> threshold m 127 255 ! y ! (x - 1) = 255))
                        then 255 else 0)))
       \<and> (\<exists>out. create_outline bp m 1 = Inr out
             \<and> (\<forall>y<h. \<forall>x<w.
                   out ! y ! x
                     = (if clean_binary m ! y ! x = 0
                           \<and> ((0 < y \<and> clean_binary m ! (y - 1) ! x = 255)
                              \<or> (0 < x \<and> clean_binary m ! y ! (x - 1) = 255))
                        then 127 else 0)))"
proof -
  let ?B = "threshold m 127 255"
  from create_outline_from_mask_ok [OF m, of 1 bp] obtain out where
    out: "create_outline_from_mask bp m 1 = Inr out" by auto
  have sharp: "\<forall>y<h. \<forall>x<w.
                 ?B ! y ! x = 0
                 \<and> ((0 < y \<and> ?B ! (y - 1) ! x = 255) \<or> (0 < x \<and> ?B ! y ! (x - 1) = 255))
                 \<longrightarrow> out ! y ! x = 255"
  proof (intro allI impI)
    fix y x
    assume yx: "y < h" "x < w"
      and c: "?B ! y ! x = 0
              \<and> ((0 < y \<and> ?B ! (y - 1) ! x = 255) \<or> (0 < x \<and> ?B ! y ! (x - 1) = 255))"
    from c have bg: "?B ! y ! x = 0"
      and nb: "(0 < y \<and> ?B ! (y - 1) ! x = 255) \<or> (0 < x \<and> ?B ! y ! (x - 1) = 255)"
      by simp_all
    from stroke_one_pixel [OF m yx bg nb, of bp] obtain o' where
      "create_outline_from_mask bp m 1 = Inr o'" "o' ! y ! x = 255" by blast
    with out show "out ! y ! x = 255" by simp
  qed
  have edge: "\<forall>y<h. \<forall>x<w.
                 ?B ! y ! x = 0
                 \<and> ((0 < y \<and> ?B ! (y - 1) ! x = 255) \<or> (0 < x \<and> ?B ! y ! (x - 1) = 255)
                    \<or> (y + 1 < h \<and> ?B ! (y + 1) ! x = 255) \<or> (x + 1 < w \<and> ?B ! y ! (x + 1) = 255))
                 \<longrightarrow> out ! y ! x \<noteq> 0"
  proof (intro allI impI)
    fix y x
    assume yx: "y < h" "x < w"
      and c: "?B ! y ! x = 0
              \<and> ((0 < y \<and> ?B ! (y - 1) ! x = 255) \<or> (0 < x \<and> ?B ! y ! (x - 1) = 255)
                 \<or> (y + 1 < h \<and> ?B ! (y + 1) ! x = 255) \<or> (x + 1 < w \<and> ?B ! y ! (x + 1) = 255))"
    from c have bg: "?B ! y ! x = 0"
      and nb: "(0 < y \<and> ?B ! (y - 1) ! x = 255) \<or> (0 < x \<and> ?B ! y ! (x - 1) = 255)
                 \<or> (y + 1 < h \<and> ?B ! (y + 1) ! x = 255) \<or> (x + 1 < w \<and> ?B ! y ! (x + 1) = 255)"
      by simp_all
    from stroke_one_edge_pixel [where bp = bp, OF m yx blur bg nb] obtain o' where
      "create_outline_from_mask bp m 1 = Inr o'" "o' ! y ! x \<noteq> 0" by blast
    with out show "out ! y ! x \<noteq> 0" by simp
  qed
  have nonempty: "(\<exists>y<h. \<exists>x<w. ?B ! y ! x = 255) \<and> (\<exists>y<h. \<exists>x<w. ?B ! y ! x = 0)
                    \<longrightarrow> (\<exists>y<h. \<exists>x<w. out ! y ! x \<noteq> 0)"
  proof
    assume "(\<exists>y<h. \<exists>x<w. ?B ! y ! x = 255) \<and> (\<exists>y<h. \<exists>x<w. ?B ! y ! x = 0)"
    then obtain y1 x1 y2 x2 where
      s: "y1 < h" "x1 < w" "?B ! y1 ! x1 = 255" and b: "y2 < h" "x2 < w" "?B ! y2 ! x2 = 0"
      by blast
    from stroke_one_nonempty [where bp = bp, OF m blur s b] obtain o' y x where
      o': "create_outline_from_mask bp m 1 = Inr o'" and yx: "y < h" "x < w"
      and nz: "o' ! y ! x \<noteq> 0" by blast
    from o' out nz have "out ! y ! x \<noteq> 0" by simp
    with yx show "\<exists>y<h. \<exists>x<w. out ! y ! x \<noteq> 0" by blast
  qed
  obtain inner where inner: "inner_outline_from_mask m 1 = Inr inner"
    by (simp add: inner_outline_from_mask_def getStructuringElement_pos Let_def)
  have rim: "\<forall>y<h. \<forall>x<w.
               inner ! y ! x
                 = (if ?B ! y ! x = 0
                       \<and> ((0 < y \<and> ?B ! (y - 1) ! x = 255) \<or> (0 < x \<and> ?B ! y ! (x - 1) = 255))
                    then 255 else 0)"
  proof (intro allI impI)
    fix y x
    assume yx: "y < h" "x < w"
    from inner_stroke_one [OF m yx] obtain i' where
      i': "inner_outline_from_mask m 1 = Inr i'"
      and eq: "i' ! y ! x
            = (if ?B ! y ! x = 0
                  \<and> ((0 < y \<and> ?B ! (y - 1) ! x = 255) \<or> (0 < x \<and> ?B ! y ! (x - 1) = 255))
               then 255 else 0)"
      by blast
    from i' inner have "i' = inner" by simp
    with eq show "inner ! y ! x
            = (if ?B ! y ! x = 0
                  \<and> ((0 < y \<and> ?B ! (y - 1) ! x = 255) \<or> (0 < x \<and> ?B ! y ! (x - 1) = 255))
               then 255 else 0)"
      by (simp only:)
  qed
  let ?C = "clean_binary m"
  from create_outline_ok [OF m, of 1 bp] obtain fout where
    fout: "create_outline bp m 1 = Inr fout" by auto
  have fast: "\<forall>y<h. \<forall>x<w.
                fout ! y ! x
                  = (if ?C ! y ! x = 0
                        \<and> ((0 < y \<and> ?C ! (y - 1) ! x = 255) \<or> (0 < x \<and> ?C ! y ! (x - 1) = 255))
                     then 127 else 0)"
  proof (intro allI impI)
    fix y x
    assume yx: "y < h" "x < w"
    from create_outline_one_pixel [OF m yx, of bp] obtain o' where
      o': "create_outline bp m 1 = Inr o'"
      and eq: "o' ! y ! x
            = (if ?C ! y ! x = 0
                  \<and> ((0 < y \<and> ?C ! (y - 1) ! x = 255) \<or> (0 < x \<and> ?C ! y ! (x - 1) = 255))
               then 127 else 0)"
      by blast
    from o' fout have "o' = fout" by simp
    with eq show "fout ! y ! x
            = (if ?C ! y ! x = 0
                  \<and> ((0 < y \<and> ?C ! (y - 1) ! x = 255) \<or> (0 < x \<and> ?C ! y ! (x - 1) = 255))
               then 127 else 0)"
      by (simp only:)
  qed
  have a: "\<exists>out. create_outline_from_mask bp m 1 = Inr out
             \<and> (\<forall>y<h. \<forall>x<w.
                   ?B ! y ! x = 0
                   \<and> ((0 < y \<and> ?B ! (y - 1) ! x = 255) \<or> (0 < x \<and> ?B ! y ! (x - 1) = 255))
                   \<longrightarrow> out ! y ! x = 255)
             \<and> (\<forall>y<h. \<forall>x<w.
                   ?B ! y ! x = 0
                   \<and> ((0 < y \<and> ?B ! (y - 1) ! x = 255) \<or> (0 < x \<and> ?B ! y ! (x - 1) = 255)
                      \<or> (y + 1 < h \<and> ?B ! (y + 1) ! x = 255)
                      \<or> (x + 1 < w \<and> ?B ! y ! (x + 1) = 255))
                   \<longrightarrow> out ! y ! x \<noteq> 0)
             \<and> ((\<exists>y<h. \<exists>x<w. ?B ! y ! x = 255) \<and> (\<exists>y<h. \<exists>x<w. ?B ! y ! x = 0)
                \<longrightarrow> (\<exists>y<h. \<exists>x<w. out ! y ! x \<noteq> 0))"
    by (intro exI [of _ out] conjI) (rule out sharp edge nonempty)+
  have b: "\<exists>inner. inner_outline_from_mask m 1 = Inr inner
             \<and> (\<forall>y<h. \<forall>x<w.
                   inner ! y ! x
                     = (if ?B ! y ! x = 0
                           \<and> ((0 < y \<and> ?B ! (y - 1) ! x = 255) \<or> (0 < x \<and> ?B ! y ! (x - 1) = 255))
                        then 255 else 0))"
    by (intro exI [of _ inner] conjI) (rule inner rim)+
  have c: "\<exists>out. create_outline bp m 1 = Inr out
             \<and> (\<forall>y<h. \<forall>x<w.
                   out ! y ! x
                     = (if ?C ! y ! x = 0
                           \<and> ((0 < y \<and> ?C ! (y - 1) ! x = 255) \<or> (0 < x \<and> ?C ! y ! (x - 1) = 255))
                        then 127 else 0))"
    by (intro exI [of _ fout] conjI) (rule fout fast)+
  have z0: "create_outline_from_mask bp m 0 = Inr (full h w 0)"
    by (rule create_outline_from_mask_stroke_zero [OF m])
  have z1: "create_outline bp m 0 = Inl CvError"
    by (rule create_outline_stroke_zero)
  show ?thesis
    by (intro conjI) (rule z0 z1 a b c)+
qed

theorem stroke_boundary_witness:
  "has_shape 3 3 corner_mask
   \<and> (2 :: uint8) \<le> copy_blur 5 [[0, 0, 0], [0, 0, 255], [0, 255, 0]] 1 2
   \<and> create_outline_from_mask copy_blur corner_mask 0 = Inr (full 3 3 0)
       \<and> create_outline copy_blur corner_mask 0 = Inl CvError
       \<and> (\<exists>out. create_outline_from_mask copy_blur corner_mask 1 = Inr out
             \<and> (\<forall>y<3. \<forall>x<3.
                   threshold corner_mask 127 255 ! y ! x = 0
                   \<and> ((0 < y \<and> threshold corner_mask 127 255 ! (y - 1) ! x = 255)
                      \<or> (0 < x \<and> threshold corner_mask 127 255 ! y ! (x - 1) = 255))
                   \<longrightarrow> out ! y ! x = 255)
             \<and> (\<forall>y<3. \<forall>x<3.
                   threshold corner_mask 127 255 ! y ! x = 0
                   \<and> ((0 < y \<and> threshold corner_mask 127 255 ! (y - 1) ! x = 255)
                      \<or> (0 < x \<and> threshold corner_mask 127 255 ! y ! (x - 1) = 255)
                      \<or> (y + 1 < 3 \<and> threshold corner_mask 127 255 ! (y + 1) ! x = 255)
                      \<or> (x + 1 < 3 \<and> threshold corner_mask 127 255 ! y ! (x + 1) = 255))
                   \<longrightarrow> out ! y ! x \<noteq> 0)
             \<and> ((\<exists>y<3. \<exists>x<3. threshold corner_mask 127 255 ! y ! x = 255)
                  \<and> (\<exists>y<3. \<exists>x<3. threshold corner_mask 127 255 ! y ! x = 0)
                \<longrightarrow> (\<exists>y<3. \<exists>x<3. out ! y ! x \<noteq> 0)))
       \<and> (\<exists>inner. inner_outline_from_mask corner_mask 1 = Inr inner
             \<and> (\<forall>y<3. \<forall>x<3.
                   inner ! y ! x
                     = (if threshold corner_mask 127 255 ! y ! x = 0
                           \<and> ((0 < y \<and> threshold corner_mask 127 255 ! (y - 1) ! x = 255)
                              \<or> (0 < x \<and> threshold corner_mask 127 255 ! y ! (x - 1) = 255))
                        then 255 else 0)))
       \<and> (\<exists>out. create_outline copy_blur corner_mask 1 = Inr out
             \<and> (\<forall>y<3. \<forall>x<3.
                   out ! y ! x
                     = (if clean_binary corner_mask ! y ! x = 0
                           \<and> ((0 < y \<and> clean_binary corner_mask ! (y - 1) ! x = 255)
                              \<or> (0 < x \<and> clean_binary corner_mask ! y ! (x - 1) = 255))
                        then 127 else 0)))"
proof -
  have m: "has_shape 3 3 corner_mask"
    by (simp add: has_shape_def corner_mask_def)
  have c: "(2 :: uint8) \<le> copy_blur 5 [[0, 0, 0], [0, 0, 255], [0, 255, 0]] 1 2"
    by (simp add: copy_blur_def)
  have t: "create_outline_from_mask copy_blur corner_mask 0 = Inr (full 3 3 0)
       \<and> create_outline copy_blur corner_mask 0 = Inl CvError
       \<and> (\<exists>out. create_outline_from_mask copy_blur corner_mask 1 = Inr out
             \<and> (\<forall>y<3. \<forall>x<3.
                   threshold corner_mask 127 255 ! y ! x = 0
                   \<and> ((0 < y \<and> threshold corner_mask 127 255 ! (y - 1) ! x = 255)
                      \<or> (0 < x \<and> threshold corner_mask 127 255 ! y ! (x - 1) = 255))
                   \<longrightarrow> out ! y ! x = 255)
             \<and> (\<forall>y<3. \<forall>x<3.
                   threshold corner_mask 127 255 ! y ! x = 0
                   \<and> ((0 < y \<and> threshold corner_mask 127 255 ! (y - 1) ! x = 255)
                      \<or> (0 < x \<and> threshold corner_mask 127 255 ! y ! (x - 1) = 255)
                      \<or> (y + 1 < 3 \<and> threshold corner_mask 127 255 ! (y + 1) ! x = 255)
                      \<or> (x + 1 < 3 \<and> threshold corner_mask 127 255 ! y ! (x + 1) = 255))
                   \<longrightarrow> out ! y ! x \<noteq> 0)
             \<and> ((\<exists>y<3. \<exists>x<3. threshold corner_mask 127 255 ! y ! x = 255)
                  \<and> (\<exists>y<3. \<exists>x<3. threshold corner_mask 127 255 ! y ! x = 0)
                \<longrightarrow> (\<exists>y<3. \<exists>x<3. out ! y ! x \<noteq> 0)))
       \<and> (\<exists>inner. inner_outline_from_mask corner_mask 1 = Inr inner
             \<and> (\<forall>y<3. \<forall>x<3.
                   inner ! y ! x
                     = (if threshold corner_mask 127 255 ! y ! x = 0
                           \<and> ((0 < y \<and> threshold corner_mask 127 255 ! (y - 1) ! x = 255)
                              \<or> (0 < x \<and> threshold corner_mask 127 255 ! y ! (x - 1) = 255))
                        then 255 else 0)))
       \<and> (\<exists>out. create_outline copy_blur corner_mask 1 = Inr out
             \<and> (\<forall>y<3. \<forall>x<3.
                   out ! y ! x
                     = (if clean_binary corner_mask ! y ! x = 0
                           \<and> ((0 < y \<and> clean_binary corner_mask ! (y - 1) ! x = 255)
                              \<or> (0 < x \<and> clean_binary corner_mask ! y ! (x - 1) = 255))
                        then 127 else 0)))"
    by (rule stroke_boundary [OF m]) (simp add: copy_blur_def)
  show ?thesis
    by (rule conjI [OF m conjI [OF c t]])
qed

section \<open>Frame Sampler: the hold policy of both scripts\<close>

lemma source_outline_latest:
  assumes "source_outline N i < j" "j \<le> i"
  shows "\<not> sampled_outline N j"
proof
  assume sj: "sampled_outline N j"
  from assms(1) have "j \<noteq> 0" by simp
  with sj obtain k where k: "j + 1 = N * k" by (auto simp: sampled_outline_def)
  show False
  proof (cases "i + 1 < N")
    case True
    with assms(2) have "j + 1 < N" by simp
    with k show False by (cases k) auto
  next
    case False
    let ?r = "(i + 1) mod N"
    have N: "0 < N" using k by (cases N) auto
    have "?r < N" using N by simp
    then have le: "?r \<le> i" using False by linarith
    have "source_outline N i + 1 = (i + 1) - ?r"
      using False le by (simp add: source_outline_def)
    also have "\<dots> = N * ((i + 1) div N)" by (simp add: minus_mod_eq_mult_div)
    finally have src: "source_outline N i + 1 = N * ((i + 1) div N)" .
    have "N * ((i + 1) div N) < N * k" using assms(1) src k by linarith
    then have a: "(i + 1) div N < k" by simp
    have "N * k \<le> i + 1" using assms(2) k by linarith
    then have "N * k div N \<le> (i + 1) div N" by (rule div_le_mono)
    then have "k \<le> (i + 1) div N" using N by simp
    with a show False by simp
  qed
qed

lemma sampler_facts_fast:
  "source_fast N i \<le> i \<and> sampled_fast N (source_fast N i)
   \<and> (\<forall>j. source_fast N i < j \<and> j \<le> i \<longrightarrow> \<not> sampled_fast N j)"
  using source_fast_le [of N i] sampled_source_fast [of N i] source_fast_latest [of N i]
  by blast

lemma sampler_facts_outline:
  assumes "0 < N"
  shows "source_outline N i \<le> i \<and> sampled_outline N (source_outline N i)
   \<and> (\<forall>j. source_outline N i < j \<and> j \<le> i \<longrightarrow> \<not> sampled_outline N j)"
  using source_outline_le [of N i] sampled_source_outline [OF assms, of i]
        source_outline_latest [of N i]
  by blast

lemma fast_loop_policy:
  assumes N: "0 < N"
    and ok: "\<forall>i<length fs. sampled_fast N i
               \<longrightarrow> (\<exists>r. fresh_streams bp op h w s (remove (fs ! i)) = Inr r)"
  shows "\<exists>st. fast_loop bp op remove h w s (int N) fs fast_init = (None, st)
           \<and> segmented_fast st = map ((!) fs) (filter (sampled_fast N) [0..<length fs])
           \<and> processed st = int (length (filter (sampled_fast N) [0..<length fs]))
           \<and> length (fg_dir st) = length fs
           \<and> length (outline_dir st) = length fs
           \<and> length (shadow_dir st) = length fs
           \<and> (\<forall>i<length fs.
                 fst (fg_dir st ! i) = int i
                 \<and> fst (outline_dir st ! i) = int i
                 \<and> fst (shadow_dir st ! i) = int i
                 \<and> fresh_streams bp op h w s (remove (fs ! source_fast N i))
                     = Inr (snd (fg_dir st ! i), snd (outline_dir st ! i), snd (shadow_dir st ! i)))"
proof -
  from ok have "\<forall>i. \<exists>r. i < length fs \<and> sampled_fast N i
                  \<longrightarrow> fresh_streams bp op h w s (remove (fs ! i)) = Inr r"
    by blast
  then obtain R where R: "\<And>i. i < length fs \<Longrightarrow> sampled_fast N i
                  \<Longrightarrow> fresh_streams bp op h w s (remove (fs ! i)) = Inr (R i)"
    by metis
  have R': "\<And>i. i < length fs \<Longrightarrow> sampled_fast N i
              \<Longrightarrow> fresh_streams bp op h w s (remove (fs ! i))
                    = Inr (fst (R i), fst (snd (R i)), snd (snd (R i)))"
    using R by simp
  from fast_loop_run [where A = "\<lambda>i. fst (R i)" and B = "\<lambda>i. fst (snd (R i))"
                        and C = "\<lambda>i. snd (snd (R i))" and remove = remove and fs = fs
                        and bp = bp and op = op and h = h and w = w and s = s, OF N R']
  obtain st where
    run: "fast_loop bp op remove h w s (int N) fs fast_init = (None, st)"
    and pc: "processed st = int (length (filter (sampled_fast N) [0..<length fs]))"
    and sg: "segmented_fast st = map ((!) fs) (filter (sampled_fast N) [0..<length fs])"
    and da: "fg_dir st = map (\<lambda>i. (int i, fst (R (source_fast N i)))) [0..<length fs]"
    and db: "outline_dir st = map (\<lambda>i. (int i, fst (snd (R (source_fast N i))))) [0..<length fs]"
    and dc: "shadow_dir st = map (\<lambda>i. (int i, snd (snd (R (source_fast N i))))) [0..<length fs]"
    by blast
  have px: "\<forall>i<length fs.
              fst (fg_dir st ! i) = int i
              \<and> fst (outline_dir st ! i) = int i
              \<and> fst (shadow_dir st ! i) = int i
              \<and> fresh_streams bp op h w s (remove (fs ! source_fast N i))
                  = Inr (snd (fg_dir st ! i), snd (outline_dir st ! i), snd (shadow_dir st ! i))"
  proof (intro allI impI)
    fix i assume i: "i < length fs"
    have j: "source_fast N i < length fs" using source_fast_le [of N i] i by simp
    from R' [OF j sampled_source_fast] i
    show "fst (fg_dir st ! i) = int i
          \<and> fst (outline_dir st ! i) = int i
          \<and> fst (shadow_dir st ! i) = int i
          \<and> fresh_streams bp op h w s (remove (fs ! source_fast N i))
              = Inr (snd (fg_dir st ! i), snd (outline_dir st ! i), snd (shadow_dir st ! i))"
      by (simp add: da db dc)
  qed
  have len: "length (fg_dir st) = length fs" "length (outline_dir st) = length fs"
            "length (shadow_dir st) = length fs"
    by (simp_all add: da db dc)
  show ?thesis
    by (intro exI [of _ st] conjI) (rule run sg pc len px)+
qed

lemma outline_loop_policy:
  assumes N: "0 < N"
    and ok: "\<forall>i<length fs. sampled_outline N i
               \<longrightarrow> (\<exists>img. outline_frame bp remove h w s (fs ! i) = Inr img)"
  shows "\<exists>st. outline_loop bp remove h w s (int N) fs outline_init = (None, st)
           \<and> segmented st = map ((!) fs) (filter (sampled_outline N) [0..<length fs])
           \<and> processed_count st = int (length (filter (sampled_outline N) [0..<length fs]))
           \<and> length (frames_dir st) = length fs
           \<and> (\<forall>i<length fs.
                 fst (frames_dir st ! i) = int i + 1
                 \<and> outline_frame bp remove h w s (fs ! source_outline N i)
                     = Inr (snd (frames_dir st ! i)))"
proof -
  have "\<forall>i. \<exists>ol img. i < length fs \<and> sampled_outline N i
          \<longrightarrow> create_outline_from_mask bp (remove (fs ! i)) s = Inr ol
              \<and> flat_frame 255 h w ol = Inr img"
  proof
    fix i
    show "\<exists>ol img. i < length fs \<and> sampled_outline N i
          \<longrightarrow> create_outline_from_mask bp (remove (fs ! i)) s = Inr ol
              \<and> flat_frame 255 h w ol = Inr img"
    proof (cases "i < length fs \<and> sampled_outline N i")
      case True
      with ok obtain img where "outline_frame bp remove h w s (fs ! i) = Inr img" by blast
      then show ?thesis
        by (auto simp: outline_frame_def split: sum.splits)
    next
      case False
      then show ?thesis by blast
    qed
  qed
  then obtain L R where LR: "\<And>i. i < length fs \<Longrightarrow> sampled_outline N i
          \<Longrightarrow> create_outline_from_mask bp (remove (fs ! i)) s = Inr (L i)
              \<and> flat_frame 255 h w (L i) = Inr (R i)"
    by metis
  from outline_loop_run [where L = L and R = R and remove = remove and fs = fs
                           and bp = bp and h = h and w = w and s = s, OF N LR]
  obtain st where
    run: "outline_loop bp remove h w s (int N) fs outline_init = (None, st)"
    and pc: "processed_count st = int (length (filter (sampled_outline N) [0..<length fs]))"
    and sg: "segmented st = map ((!) fs) (filter (sampled_outline N) [0..<length fs])"
    and fd: "frames_dir st = map (\<lambda>i. (int i + 1, R (source_outline N i))) [0..<length fs]"
    by blast
  have px: "\<forall>i<length fs.
              fst (frames_dir st ! i) = int i + 1
              \<and> outline_frame bp remove h w s (fs ! source_outline N i)
                  = Inr (snd (frames_dir st ! i))"
  proof (intro allI impI)
    fix i assume i: "i < length fs"
    have j: "source_outline N i < length fs" using source_outline_le [of N i] i by simp
    from LR [OF j sampled_source_outline [OF N]] i
    show "fst (frames_dir st ! i) = int i + 1
          \<and> outline_frame bp remove h w s (fs ! source_outline N i)
              = Inr (snd (frames_dir st ! i))"
      by (simp add: fd outline_frame_def)
  qed
  have len: "length (frames_dir st) = length fs" by (simp add: fd)
  show ?thesis
    by (intro exI [of _ st] conjI) (rule run sg pc len px)+
qed

text \<open>
  Claim C1, as amended. For a sampling interval \<open>N\<close> of at least 1, and when the
  computation succeeds on the frames it is run on, both loops run to the end, write
  one image (one image per stream) for every frame, and pass to the Mask Source
  exactly the frames at the sampled positions; the image written for position \<open>i\<close>
  is the one computed from the frame at the latest sampled position up to \<open>i\<close>.
  The two scripts differ in which positions are sampled. extract-foreground.py tests
  the 0-based index: position \<open>i\<close> is sampled when \<open>i mod N = 0\<close>, as the claim says.
  create-human-outline.py tests the count after it has been incremented, and
  computes when nothing has been computed yet: position \<open>i\<close> (0-based) is sampled
  when \<open>i = 0\<close> or \<open>(i + 1) mod N = 0\<close>.
\<close>

theorem sampler_hold_policy:
  assumes N: "0 < N"
    and fast_ok: "\<forall>i<length fs. sampled_fast N i
                    \<longrightarrow> (\<exists>r. fresh_streams bp op h w s (remove_rgba (fs ! i)) = Inr r)"
    and outline_ok: "\<forall>i<length fs. sampled_outline N i
                    \<longrightarrow> (\<exists>img. outline_frame bp remove_mask h w s (fs ! i) = Inr img)"
  shows "(\<exists>st. fast_loop bp op remove_rgba h w s (int N) fs fast_init = (None, st)
           \<and> segmented_fast st = map ((!) fs) (filter (sampled_fast N) [0..<length fs])
           \<and> processed st = int (length (filter (sampled_fast N) [0..<length fs]))
           \<and> length (fg_dir st) = length fs
           \<and> length (outline_dir st) = length fs
           \<and> length (shadow_dir st) = length fs
           \<and> (\<forall>i<length fs.
                 fst (fg_dir st ! i) = int i
                 \<and> fst (outline_dir st ! i) = int i
                 \<and> fst (shadow_dir st ! i) = int i
                 \<and> fresh_streams bp op h w s (remove_rgba (fs ! source_fast N i))
                     = Inr (snd (fg_dir st ! i), snd (outline_dir st ! i), snd (shadow_dir st ! i))))
       \<and> (\<exists>st. outline_loop bp remove_mask h w s (int N) fs outline_init = (None, st)
           \<and> segmented st = map ((!) fs) (filter (sampled_outline N) [0..<length fs])
           \<and> processed_count st = int (length (filter (sampled_outline N) [0..<length fs]))
           \<and> length (frames_dir st) = length fs
           \<and> (\<forall>i<length fs.
                 fst (frames_dir st ! i) = int i + 1
                 \<and> outline_frame bp remove_mask h w s (fs ! source_outline N i)
                     = Inr (snd (frames_dir st ! i))))
       \<and> (\<forall>i. source_fast N i \<le> i \<and> sampled_fast N (source_fast N i)
              \<and> (\<forall>j. source_fast N i < j \<and> j \<le> i \<longrightarrow> \<not> sampled_fast N j))
       \<and> (\<forall>i. source_outline N i \<le> i \<and> sampled_outline N (source_outline N i)
              \<and> (\<forall>j. source_outline N i < j \<and> j \<le> i \<longrightarrow> \<not> sampled_outline N j))"
proof -
  have a: "\<forall>i. source_fast N i \<le> i \<and> sampled_fast N (source_fast N i)
              \<and> (\<forall>j. source_fast N i < j \<and> j \<le> i \<longrightarrow> \<not> sampled_fast N j)"
    by (intro allI) (rule sampler_facts_fast)
  have b: "\<forall>i. source_outline N i \<le> i \<and> sampled_outline N (source_outline N i)
              \<and> (\<forall>j. source_outline N i < j \<and> j \<le> i \<longrightarrow> \<not> sampled_outline N j)"
    by (intro allI) (rule sampler_facts_outline [OF N])
  show ?thesis
    by (rule conjI [OF fast_loop_policy [OF N fast_ok]
          conjI [OF outline_loop_policy [OF N outline_ok] conjI [OF a b]]])
qed

lemma four_frames_shapes: "list_all (has_shape 2 2) (frames four_frames)"
  by (simp add: four_frames_def has_shape_def)

lemma echo_rgba_streams:
  assumes "has_shape 2 2 f"
  shows "\<exists>r. fresh_streams copy_blur halve 2 2 1 (echo_rgba f) = Inr r"
  unfolding echo_rgba_def
  by (rule fresh_streams_ok [OF has_shape_map [OF assms]]) simp_all

theorem sampler_hold_policy_witness:
  "(0 :: nat) < 2 \<and> list_all (has_shape 2 2) (frames four_frames)
   \<and> (\<exists>st. fast_loop copy_blur halve echo_rgba 2 2 1 (int 2) (frames four_frames) fast_init = (None, st)
           \<and> segmented_fast st = map ((!) (frames four_frames)) (filter (sampled_fast 2) [0..<length (frames four_frames)])
           \<and> processed st = int (length (filter (sampled_fast 2) [0..<length (frames four_frames)]))
           \<and> length (fg_dir st) = length (frames four_frames)
           \<and> length (outline_dir st) = length (frames four_frames)
           \<and> length (shadow_dir st) = length (frames four_frames)
           \<and> (\<forall>i<length (frames four_frames).
                 fst (fg_dir st ! i) = int i
                 \<and> fst (outline_dir st ! i) = int i
                 \<and> fst (shadow_dir st ! i) = int i
                 \<and> fresh_streams copy_blur halve 2 2 1 (echo_rgba ((frames four_frames) ! source_fast 2 i))
                     = Inr (snd (fg_dir st ! i), snd (outline_dir st ! i), snd (shadow_dir st ! i))))
       \<and> (\<exists>st. outline_loop copy_blur echo_mask 2 2 1 (int 2) (frames four_frames) outline_init = (None, st)
           \<and> segmented st = map ((!) (frames four_frames)) (filter (sampled_outline 2) [0..<length (frames four_frames)])
           \<and> processed_count st = int (length (filter (sampled_outline 2) [0..<length (frames four_frames)]))
           \<and> length (frames_dir st) = length (frames four_frames)
           \<and> (\<forall>i<length (frames four_frames).
                 fst (frames_dir st ! i) = int i + 1
                 \<and> outline_frame copy_blur echo_mask 2 2 1 ((frames four_frames) ! source_outline 2 i)
                     = Inr (snd (frames_dir st ! i))))
       \<and> (\<forall>i. source_fast 2 i \<le> i \<and> sampled_fast 2 (source_fast 2 i)
              \<and> (\<forall>j. source_fast 2 i < j \<and> j \<le> i \<longrightarrow> \<not> sampled_fast 2 j))
       \<and> (\<forall>i. source_outline 2 i \<le> i \<and> sampled_outline 2 (source_outline 2 i)
              \<and> (\<forall>j. source_outline 2 i < j \<and> j \<le> i \<longrightarrow> \<not> sampled_outline 2 j))"
proof -
  have N: "(0 :: nat) < 2" by simp
  have sh: "\<And>i. i < length (frames four_frames) \<Longrightarrow> has_shape 2 2 (frames four_frames ! i)"
    using four_frames_shapes by (simp add: list_all_length)
  have f: "\<forall>i<length (frames four_frames). sampled_fast 2 i
             \<longrightarrow> (\<exists>r. fresh_streams copy_blur halve 2 2 1 (echo_rgba (frames four_frames ! i)) = Inr r)"
    using sh echo_rgba_streams by blast
  have o: "\<forall>i<length (frames four_frames). sampled_outline 2 i
             \<longrightarrow> (\<exists>img. outline_frame copy_blur echo_mask 2 2 1 (frames four_frames ! i) = Inr img)"
  proof (intro allI impI)
    fix i assume "i < length (frames four_frames)"
    then have "has_shape 2 2 (echo_mask (frames four_frames ! i))"
      using sh by (simp add: echo_mask_def)
    from outline_frame_ok [where remove = echo_mask and f = "frames four_frames ! i" and s = 1
                             and bp = copy_blur, OF this]
    show "\<exists>img. outline_frame copy_blur echo_mask 2 2 1 (frames four_frames ! i) = Inr img"
      by auto
  qed
  have t: "(\<exists>st. fast_loop copy_blur halve echo_rgba 2 2 1 (int 2) (frames four_frames) fast_init = (None, st)
           \<and> segmented_fast st = map ((!) (frames four_frames)) (filter (sampled_fast 2) [0..<length (frames four_frames)])
           \<and> processed st = int (length (filter (sampled_fast 2) [0..<length (frames four_frames)]))
           \<and> length (fg_dir st) = length (frames four_frames)
           \<and> length (outline_dir st) = length (frames four_frames)
           \<and> length (shadow_dir st) = length (frames four_frames)
           \<and> (\<forall>i<length (frames four_frames).
                 fst (fg_dir st ! i) = int i
                 \<and> fst (outline_dir st ! i) = int i
                 \<and> fst (shadow_dir st ! i) = int i
                 \<and> fresh_streams copy_blur halve 2 2 1 (echo_rgba ((frames four_frames) ! source_fast 2 i))
                     = Inr (snd (fg_dir st ! i), snd (outline_dir st ! i), snd (shadow_dir st ! i))))
       \<and> (\<exists>st. outline_loop copy_blur echo_mask 2 2 1 (int 2) (frames four_frames) outline_init = (None, st)
           \<and> segmented st = map ((!) (frames four_frames)) (filter (sampled_outline 2) [0..<length (frames four_frames)])
           \<and> processed_count st = int (length (filter (sampled_outline 2) [0..<length (frames four_frames)]))
           \<and> length (frames_dir st) = length (frames four_frames)
           \<and> (\<forall>i<length (frames four_frames).
                 fst (frames_dir st ! i) = int i + 1
                 \<and> outline_frame copy_blur echo_mask 2 2 1 ((frames four_frames) ! source_outline 2 i)
                     = Inr (snd (frames_dir st ! i))))
       \<and> (\<forall>i. source_fast 2 i \<le> i \<and> sampled_fast 2 (source_fast 2 i)
              \<and> (\<forall>j. source_fast 2 i < j \<and> j \<le> i \<longrightarrow> \<not> sampled_fast 2 j))
       \<and> (\<forall>i. source_outline 2 i \<le> i \<and> sampled_outline 2 (source_outline 2 i)
              \<and> (\<forall>j. source_outline 2 i < j \<and> j \<le> i \<longrightarrow> \<not> sampled_outline 2 j))"
    by (rule sampler_hold_policy [OF N f o])
  show ?thesis
    by (rule conjI [OF N conjI [OF four_frames_shapes t]])
qed

text \<open>
  Claim C1 as stated fails for create-human-outline.py: on the video of four
  frames with sample rate 2 it runs the Mask Source three times, on the frames at
  positions 0, 1 and 3; the image written for position 1 differs from the one for
  position 0, and the one for position 2 is the one for position 1.
\<close>

theorem outline_sampler_counts_from_one:
  "(case outline_loop copy_blur echo_mask 2 2 1 2 (frames four_frames) outline_init of
      (Some e, st) \<Rightarrow> False
    | (None, st) \<Rightarrow>
        processed_count st = 3
        \<and> segmented st = [frames four_frames ! 0, frames four_frames ! 1, frames four_frames ! 3]
        \<and> snd (frames_dir st ! 1) \<noteq> snd (frames_dir st ! 0)
        \<and> snd (frames_dir st ! 2) = snd (frames_dir st ! 1))"
  by code_simp

section \<open>The dimension invariant\<close>











end
